theory Spec2Isabelle
  imports Complex_Main "HOL-Library.AList"
begin

section \<open>Bytes, text and the builtins used by ffmpeg\_progress.py\<close>

text \<open>
  Byte strings and decoded text are both \<open>string\<close> (a list of 8-bit characters).
  Python floats are modelled as exact rationals: rounding, overflow to \<open>inf\<close> and
  \<open>nan\<close> are not part of the model.
\<close>

datatype error = IOError | KeyError | ValueError | ZeroDivisionError | AttributeError
  | NotModelled

definition NL :: char where
  "NL = CHR 0x0A"

definition is_space :: "char \<Rightarrow> bool" where
  \<comment> \<open>the bytes removed by \<open>bytes.strip()\<close>: space, tab, newline, return, VT, FF\<close>
  "is_space c = (c = CHR '' '' \<or> c = CHR 0x09 \<or> c = CHR 0x0A \<or> c = CHR 0x0D
                 \<or> c = CHR 0x0B \<or> c = CHR 0x0C)"

definition strip :: "string \<Rightarrow> string" where
  "strip s = rev (dropWhile is_space (rev (dropWhile is_space s)))"

definition decode_ascii_ignore :: "string \<Rightarrow> string" where
  \<comment> \<open>\<open>bytes.decode("ascii", "ignore")\<close>: bytes above 127 are dropped\<close>
  "decode_ascii_ignore b = filter (\<lambda>c. (of_char c :: nat) < 128) b"

definition readline :: "string \<Rightarrow> string \<times> string" where
  \<comment> \<open>\<open>readline()\<close> on the rest of a stream: the line with its newline, and what is left;
      at end of stream the empty byte string, again and again\<close>
  "readline s = (case dropWhile (\<lambda>c. c \<noteq> NL) s of
                   [] \<Rightarrow> (s, [])
                 | _ # rest \<Rightarrow> (takeWhile (\<lambda>c. c \<noteq> NL) s @ [NL], rest))"

fun split_on :: "char \<Rightarrow> string \<Rightarrow> string list" where
  \<comment> \<open>\<open>str.split(sep)\<close> for a separator of one character\<close>
  "split_on sep [] = [[]]"
| "split_on sep (c # cs) =
     (if c = sep then [] # split_on sep cs
      else (case split_on sep cs of p # ps \<Rightarrow> (c # p) # ps | [] \<Rightarrow> [[c]]))"

definition split_once :: "char \<Rightarrow> string \<Rightarrow> string list" where
  \<comment> \<open>\<open>str.split(sep, 1)\<close>\<close>
  "split_once sep s =
     (if sep \<in> set s
      then [takeWhile (\<lambda>c. c \<noteq> sep) s, tl (dropWhile (\<lambda>c. c \<noteq> sep) s)]
      else [s])"

definition is_digit :: "char \<Rightarrow> bool" where
  "is_digit c = (48 \<le> (of_char c :: nat) \<and> (of_char c :: nat) \<le> 57)"

definition is_alpha :: "char \<Rightarrow> bool" where
  "is_alpha c = ((65 \<le> (of_char c :: nat) \<and> (of_char c :: nat) \<le> 90)
               \<or> (97 \<le> (of_char c :: nat) \<and> (of_char c :: nat) \<le> 122))"

definition digits_val :: "string \<Rightarrow> nat" where
  "digits_val ds = foldl (\<lambda>a c. 10 * a + (of_char c - 48)) 0 ds"

definition float_char :: "char \<Rightarrow> bool" where
  \<comment> \<open>characters that some argument accepted by \<open>float()\<close> may contain\<close>
  "float_char c = (is_digit c \<or> is_alpha c \<or> c = CHR ''+'' \<or> c = CHR ''-''
                   \<or> c = CHR ''.'' \<or> c = CHR ''_''
                   \<or> (of_char c :: nat) \<le> 32 \<or> 128 \<le> (of_char c :: nat))"

definition py_float :: "string \<Rightarrow> error + rat" where
  \<comment> \<open>the builtin \<open>float(str)\<close> on plain decimal literals: optional blanks around, an
      optional sign, digits with an optional fraction. An argument with a character
      that no float literal has is a ValueError; the other forms (exponent, digit
      grouping, inf, nan) are marked NotModelled.\<close>
  "py_float s =
     (let t = strip s;
          neg = (t \<noteq> [] \<and> hd t = CHR ''-'');
          body = (if t \<noteq> [] \<and> (hd t = CHR ''-'' \<or> hd t = CHR ''+'') then tl t else t);
          ip = takeWhile is_digit body;
          rest = dropWhile is_digit body;
          fp = tl rest;
          sgn = (if neg then - 1 else 1)
      in if rest = [] \<and> ip \<noteq> [] then Inr (sgn * of_nat (digits_val ip))
         else if rest \<noteq> [] \<and> hd rest = CHR ''.'' \<and> list_all is_digit fp
                 \<and> (ip \<noteq> [] \<or> fp \<noteq> [])
         then Inr (sgn * (of_nat (digits_val ip) + of_nat (digits_val fp) / 10 ^ length fp))
         else if t \<noteq> [] \<and> list_all float_char t then Inl NotModelled
         else Inl ValueError)"

subsection \<open>The regular expression \<open>Duration: ([0-9:\.]+),\<close>\<close>

definition duration_class :: "char \<Rightarrow> bool" where
  "duration_class c = (is_digit c \<or> c = CHR '':'' \<or> c = CHR ''.'')"

definition match_here :: "string \<Rightarrow> string option" where
  \<comment> \<open>a match that starts at the head of the text. The class has no comma, so only
      the longest run of class characters can be followed by the comma.\<close>
  "match_here s =
     (if take 10 s = ''Duration: ''
      then (let g = takeWhile duration_class (drop 10 s);
                after = dropWhile duration_class (drop 10 s)
            in if g \<noteq> [] \<and> after \<noteq> [] \<and> hd after = CHR '','' then Some g else None)
      else None)"

fun duration_re_search :: "string \<Rightarrow> string option" where
  \<comment> \<open>\<open>duration_re.search(line)\<close>: group 1 of the leftmost match\<close>
  "duration_re_search [] = None"
| "duration_re_search (c # cs) =
     (case match_here (c # cs) of
        Some g \<Rightarrow> Some g
      | None \<Rightarrow> duration_re_search cs)"

section \<open>FFMPEGError\<close>

datatype FFMPEGError = FFMPEGError (err_exitcode: int) (err_stderr: string)

definition str_FFMPEGError :: "FFMPEGError \<Rightarrow> string" where
  "str_FFMPEGError e = decode_ascii_ignore (err_stderr e)"

section \<open>ffmpegThread\<close>

datatype 'a attribute = Missing | Value 'a

record popen =
  p_stdout :: string
  p_stderr :: string
  p_poll :: "int option"

datatype val = Str string | Flt rat

type_synonym info = "(string \<times> val) list"

datatype event = Progress rat | Info info

record ffmpegThread =
  parameters :: "string list"
  progress_f :: bool
  info_f :: bool
  input_duration_attr :: "rat option"
  ffmpeg :: "popen option attribute"
  exitcode :: "int option attribute"
  stderr :: "string attribute"

datatype 'a outcome =
    Return 'a ffmpegThread "event list"
  | Raise error ffmpegThread "event list"
  | OutOfFuel

definition init :: "string list \<Rightarrow> bool \<Rightarrow> bool \<Rightarrow> ffmpegThread" where
  "init ps pf inff =
     \<lparr>parameters = ps, progress_f = pf, info_f = inff, input_duration_attr = None,
      ffmpeg = Missing, exitcode = Missing, stderr = Missing\<rparr>"

definition indicate_progress :: "ffmpegThread \<Rightarrow> rat \<Rightarrow> info \<Rightarrow> event list" where
  "indicate_progress s ratio i =
     (if progress_f s then [Progress ratio] else []) @ (if info_f s then [Info i] else [])"

definition duration_seconds :: "string \<Rightarrow> error + rat" where
  \<comment> \<open>lines 70 to 76: the matched text to seconds\<close>
  "duration_seconds duration_s =
     (case split_on CHR ''.'' duration_s of
        [time, partial] \<Rightarrow>
          (case py_float (''0.'' @ partial) of
             Inl e \<Rightarrow> Inl e
           | Inr part \<Rightarrow>
               (case split_on CHR '':'' time of
                  [hours, minutes, seconds] \<Rightarrow>
                    (case py_float hours of
                       Inl e \<Rightarrow> Inl e
                     | Inr h \<Rightarrow>
                         (case py_float minutes of
                            Inl e \<Rightarrow> Inl e
                          | Inr m \<Rightarrow>
                              (case py_float seconds of
                                 Inl e \<Rightarrow> Inl e
                               | Inr sec \<Rightarrow> Inr (h * 3600 + m * 60 + sec + part))))
                | _ \<Rightarrow> Inl ValueError))
      | _ \<Rightarrow> Inl ValueError)"

fun input_duration_loop :: "nat \<Rightarrow> ffmpegThread \<Rightarrow> rat outcome" where
  \<comment> \<open>the \<open>while True\<close> of the accessor; the fuel bounds the number of reads\<close>
  "input_duration_loop 0 s = OutOfFuel"
| "input_duration_loop (Suc n) s =
     (case ffmpeg s of
        Value (Some p) \<Rightarrow>
          (let r = readline (p_stderr p);
               s1 = s\<lparr>ffmpeg := Value (Some (p\<lparr>p_stderr := snd r\<rparr>))\<rparr>;
               line = decode_ascii_ignore (fst r)
           in case duration_re_search line of
                None \<Rightarrow> input_duration_loop n s1
              | Some duration_s \<Rightarrow>
                  (case duration_seconds duration_s of
                     Inl e \<Rightarrow> Raise e s1 []
                   | Inr d \<Rightarrow> Return d (s1\<lparr>input_duration_attr := Some d\<rparr>) []))
      | _ \<Rightarrow> Raise AttributeError s [])"

definition input_duration :: "nat \<Rightarrow> ffmpegThread \<Rightarrow> rat outcome" where
  "input_duration fuel s =
     (case input_duration_attr s of
        Some d \<Rightarrow> Return d s []
      | None \<Rightarrow>
          (case ffmpeg s of
             Missing \<Rightarrow> Raise AttributeError s []
           | Value None \<Rightarrow> Raise IOError s []
           | Value (Some p) \<Rightarrow> input_duration_loop fuel s))"

definition process_info :: "nat \<Rightarrow> ffmpegThread \<Rightarrow> info \<Rightarrow> info outcome" where
  "process_info fuel s i =
     (case map_of i ''out_time_ms'' of
        None \<Rightarrow> Raise KeyError s []
      | Some v \<Rightarrow>
          (case (case v of Str x \<Rightarrow> py_float x | Flt q \<Rightarrow> Inr q) of
             Inl e \<Rightarrow> Raise e s []
           | Inr out_time_ms \<Rightarrow>
               if out_time_ms > 0
               then (let out_time = out_time_ms / 1000000
                     in case input_duration fuel s of
                          OutOfFuel \<Rightarrow> OutOfFuel
                        | Raise e s1 evs \<Rightarrow> Raise e s1 evs
                        | Return d s1 evs \<Rightarrow>
                            if d = 0 then Raise ZeroDivisionError s1 evs
                            else (let i1 = AList.update ''done'' (Flt (out_time / d)) i
                                  in Return i1 s1
                                       (evs @ indicate_progress s1 (out_time / d) i1)))
               else Return i s []))"

definition stdout_of :: "ffmpegThread \<Rightarrow> string" where
  "stdout_of s = (case ffmpeg s of Value (Some p) \<Rightarrow> p_stdout p | _ \<Rightarrow> [])"

definition emit :: "event list \<Rightarrow> 'a outcome \<Rightarrow> 'a outcome" where
  \<comment> \<open>callbacks already made come before those of the rest of the loop\<close>
  "emit evs r = (case r of
                   Return x s es \<Rightarrow> Return x s (evs @ es)
                 | Raise e s es \<Rightarrow> Raise e s (evs @ es)
                 | OutOfFuel \<Rightarrow> OutOfFuel)"

subsection \<open>What the accessor and \<open>process_info\<close> leave alone\<close>

definition stderr_of :: "ffmpegThread \<Rightarrow> string" where
  "stderr_of s = (case ffmpeg s of Value (Some p) \<Rightarrow> p_stderr p | _ \<Rightarrow> [])"

definition poll_of :: "ffmpegThread \<Rightarrow> int option" where
  "poll_of s = (case ffmpeg s of Value (Some p) \<Rightarrow> p_poll p | _ \<Rightarrow> None)"

definition has_handle :: "ffmpegThread \<Rightarrow> bool" where
  "has_handle s = (case ffmpeg s of Value (Some p) \<Rightarrow> True | _ \<Rightarrow> False)"

definition kept :: "ffmpegThread \<Rightarrow> ffmpegThread \<Rightarrow> bool" where
  \<comment> \<open>from \<open>s\<close> to \<open>s'\<close> only the pipes were read and the duration was cached\<close>
  "kept s s' = (parameters s' = parameters s \<and> progress_f s' = progress_f s
     \<and> info_f s' = info_f s \<and> exitcode s' = exitcode s \<and> stderr s' = stderr s
     \<and> poll_of s' = poll_of s \<and> has_handle s' = has_handle s
     \<and> (\<exists>consumed. stderr_of s = consumed @ stderr_of s'))"

definition unscanned :: "ffmpegThread \<Rightarrow> ffmpegThread \<Rightarrow> bool" where
  \<comment> \<open>if no duration is cached in \<open>s'\<close>, none was in \<open>s\<close> and the diagnostic pipe
      was not read in between\<close>
  "unscanned s s' = (input_duration_attr s' = None \<longrightarrow>
     input_duration_attr s = None \<and> stderr_of s' = stderr_of s)"

definition frame :: "ffmpegThread \<Rightarrow> ffmpegThread \<Rightarrow> bool" where
  "frame s s' = (kept s s' \<and> stdout_of s' = stdout_of s)"

lemma kept_refl [simp]: "kept s s"
  by (simp add: kept_def)

lemma unscanned_refl [simp]: "unscanned s s"
  by (simp add: unscanned_def)

lemma unscanned_trans: "unscanned a b \<Longrightarrow> unscanned b c \<Longrightarrow> unscanned a c"
  by (simp add: unscanned_def)

lemma frame_refl [simp]: "frame s s"
  by (simp add: frame_def)

lemma kept_trans:
  assumes "kept a b" and "kept b c"
  shows "kept a c"
proof -
  from assms obtain x y where "stderr_of a = x @ stderr_of b" "stderr_of b = y @ stderr_of c"
    by (auto simp: kept_def)
  then have "stderr_of a = (x @ y) @ stderr_of c" by simp
  then have "\<exists>consumed. stderr_of a = consumed @ stderr_of c" by blast
  with assms show ?thesis
    unfolding kept_def by (elim conjE) (intro conjI; fastforce)
qed

lemma frame_trans: "frame a b \<Longrightarrow> frame b c \<Longrightarrow> frame a c"
  by (auto simp: frame_def intro: kept_trans)

lemma frame_stderr_upd:
  "ffmpeg s = Value (Some p) \<Longrightarrow> p_stderr p = consumed @ x \<Longrightarrow>
   frame s (s\<lparr>ffmpeg := Value (Some (p\<lparr>p_stderr := x\<rparr>))\<rparr>)"
  by (simp add: frame_def kept_def stdout_of_def stderr_of_def poll_of_def has_handle_def)

lemma frame_duration_upd: "frame s (s\<lparr>input_duration_attr := d\<rparr>)"
  by (simp add: frame_def kept_def stdout_of_def stderr_of_def poll_of_def has_handle_def)

lemma kept_stdout_upd:
  "ffmpeg s = Value (Some p) \<Longrightarrow>
   kept s (s\<lparr>ffmpeg := Value (Some (p\<lparr>p_stdout := x\<rparr>))\<rparr>)"
  by (simp add: kept_def stderr_of_def poll_of_def has_handle_def)

lemma unscanned_stdout_upd:
  "ffmpeg s = Value (Some p) \<Longrightarrow>
   unscanned s (s\<lparr>ffmpeg := Value (Some (p\<lparr>p_stdout := x\<rparr>))\<rparr>)"
  by (simp add: unscanned_def stderr_of_def)

lemma readline_append: "s = fst (readline s) @ snd (readline s)"
proof (cases "dropWhile (\<lambda>c. c \<noteq> NL) s")
  case Nil
  show ?thesis unfolding readline_def Nil by simp
next
  case (Cons x xs)
  then have "x = NL"
    using hd_dropWhile [of "\<lambda>c. c \<noteq> NL" s] by force
  moreover have "s = takeWhile (\<lambda>c. c \<noteq> NL) s @ dropWhile (\<lambda>c. c \<noteq> NL) s"
    by simp
  ultimately have "s = (takeWhile (\<lambda>c. c \<noteq> NL) s @ [NL]) @ xs"
    using Cons by simp
  then show ?thesis unfolding readline_def Cons by simp
qed

lemma input_duration_loop_frame:
  "input_duration_loop n s = Return d s' evs \<or> input_duration_loop n s = Raise e s' evs
   \<Longrightarrow> frame s s' \<and> evs = []"
proof (induction n arbitrary: s)
  case 0
  then show ?case by simp
next
  case (Suc n)
  show ?case
  proof (cases "ffmpeg s")
    case Missing
    with Suc.prems show ?thesis by auto
  next
    case (Value h)
    show ?thesis
    proof (cases h)
      case None
      with Value Suc.prems show ?thesis by auto
    next
      case (Some p)
      let ?s1 = "s\<lparr>ffmpeg := Value (Some (p\<lparr>p_stderr := snd (readline (p_stderr p))\<rparr>))\<rparr>"
      have s1: "frame s ?s1"
        using Value Some readline_append [of "p_stderr p"] by (rule_tac frame_stderr_upd) auto
      show ?thesis
      proof (cases "duration_re_search (decode_ascii_ignore (fst (readline (p_stderr p))))")
        case None
        with Suc.prems Value Some
        have "input_duration_loop n ?s1 = Return d s' evs
              \<or> input_duration_loop n ?s1 = Raise e s' evs"
          by (simp add: Let_def)
        from Suc.IH [OF this] s1 show ?thesis by (auto intro: frame_trans)
      next
        case (Some g)
        show ?thesis
        proof (cases "duration_seconds g")
          case (Inl err)
          with Suc.prems Value \<open>h = Some p\<close> Some s1 show ?thesis
            by (auto simp: Let_def)
        next
          case (Inr v)
          with Suc.prems Value \<open>h = Some p\<close> Some
          have "s' = ?s1\<lparr>input_duration_attr := Some v\<rparr>" and "evs = []"
            by (auto simp: Let_def)
          then show ?thesis
            using frame_trans [OF s1 frame_duration_upd] by simp
        qed
      qed
    qed
  qed
qed

lemma input_duration_loop_Return:
  "input_duration_loop n s = Return d s' evs \<Longrightarrow> input_duration_attr s' = Some d"
proof (induction n arbitrary: s)
  case 0
  then show ?case by simp
next
  case (Suc n)
  then show ?case
    by (auto simp: Let_def split: attribute.splits option.splits sum.splits)
qed

lemma input_duration_frame:
  "input_duration n s = Return d s' evs \<or> input_duration n s = Raise e s' evs
   \<Longrightarrow> frame s s' \<and> evs = []"
  unfolding input_duration_def
  by (auto split: option.splits attribute.splits
           dest: input_duration_loop_frame [OF disjI1] input_duration_loop_frame [OF disjI2])

lemma input_duration_Return:
  "input_duration n s = Return d s' evs \<Longrightarrow> input_duration_attr s' = Some d"
  unfolding input_duration_def
  by (auto split: option.splits attribute.splits dest: input_duration_loop_Return)

lemma process_info_frame:
  "process_info n s i = Return i' s' evs \<or> process_info n s i = Raise e s' evs
   \<Longrightarrow> frame s s'"
  unfolding process_info_def Let_def
  by (auto split: option.splits sum.splits if_splits outcome.splits
           dest: input_duration_frame [OF disjI1] input_duration_frame [OF disjI2])

lemma process_info_unscanned:
  "process_info n s i = Return i' s' evs \<Longrightarrow> unscanned s s'"
  unfolding process_info_def Let_def
  by (auto simp: unscanned_def split: option.splits sum.splits if_splits outcome.splits
           dest: input_duration_Return)

lemma readline_shorter:
  assumes "fst (readline s) \<noteq> []"
  shows "length (snd (readline s)) < length s"
proof (cases "dropWhile (\<lambda>c. c \<noteq> NL) s")
  case Nil
  from assms show ?thesis unfolding readline_def Nil by simp
next
  case (Cons x xs)
  have "length (dropWhile (\<lambda>c. c \<noteq> NL) s) \<le> length s"
    by (rule length_dropWhile_le)
  with Cons show ?thesis by (simp add: readline_def)
qed

lemma strip_Nil [simp]: "strip [] = []"
  by (simp add: strip_def)

lemma readline_strip_shorter:
  "strip (fst (readline s)) \<noteq> [] \<Longrightarrow> length (snd (readline s)) < length s"
  by (rule readline_shorter) (cases "fst (readline s)", simp_all)

datatype iteration = Break "unit outcome" | Again ffmpegThread info "event list"

definition drain_body :: "nat \<Rightarrow> ffmpegThread \<Rightarrow> info \<Rightarrow> iteration" where
  \<comment> \<open>one pass through the \<open>while\<close> of \<open>run\<close> (lines 98 to 108). The pipe of a
      started process is readable, so the loop is left only by \<open>break\<close> or an
      exception. \<open>Again\<close> carries the thread, the dictionary for the next pass and
      the callbacks made in this one.\<close>
  "drain_body fuel s i =
     (case ffmpeg s of
        Value (Some p) \<Rightarrow>
          (let r = readline (p_stdout p);
               s1 = s\<lparr>ffmpeg := Value (Some (p\<lparr>p_stdout := snd r\<rparr>))\<rparr>;
               line = strip (fst r)
           in if line \<noteq> []
              then (case split_once CHR ''='' (decode_ascii_ignore line) of
                      [key, value] \<Rightarrow>
                        (let i1 = AList.update key (Str value) i
                         in if key = ''progress''
                            then (case process_info fuel s1 i1 of
                                    Return i2 s2 evs \<Rightarrow> Again s2 [] evs
                                  | Raise e s2 evs \<Rightarrow> Break (Raise e s2 evs)
                                  | OutOfFuel \<Rightarrow> Break OutOfFuel)
                            else Again s1 i1 [])
                    | _ \<Rightarrow> Break (Raise ValueError s1 []))
              else Break (Return () s1 []))
      | _ \<Rightarrow> Break (Raise AttributeError s []))"

lemma split_once_cases:
  obtains (one) "split_once c s = [s]" "c \<notin> set s"
  | (two) k v where "split_once c s = [k, v]" "c \<in> set s"
  by (cases "c \<in> set s") (simp_all add: split_once_def)

lemma drain_body_Again:
  assumes "drain_body fuel s i = Again s1 i1 evs"
  shows "length (stdout_of s1) < length (stdout_of s)"
    and "kept s s1" and "unscanned s s1"
proof -
  from assms obtain p where p: "ffmpeg s = Value (Some p)"
    by (auto simp: drain_body_def split: attribute.splits option.splits)
  let ?r = "readline (p_stdout p)"
  let ?s1 = "s\<lparr>ffmpeg := Value (Some (p\<lparr>p_stdout := snd ?r\<rparr>))\<rparr>"
  from assms p have line: "strip (fst ?r) \<noteq> []"
    by (auto simp: drain_body_def Let_def split: if_splits)
  have less: "length (snd ?r) < length (p_stdout p)"
    using line by (rule readline_strip_shorter)
  have out: "stdout_of s = p_stdout p" "stdout_of ?s1 = snd ?r"
    using p by (simp_all add: stdout_of_def)
  have k1: "kept s ?s1" and u1: "unscanned s ?s1"
    using p by (rule kept_stdout_upd, rule unscanned_stdout_upd)
  from split_once_cases [of "CHR ''=''" "decode_ascii_ignore (strip (fst ?r))"]
  have "length (stdout_of s1) < length (stdout_of s) \<and> kept s s1 \<and> unscanned s s1"
  proof cases
    case one
    with assms p line show ?thesis by (simp add: drain_body_def Let_def)
  next
    case (two k v)
    show ?thesis
    proof (cases "k = ''progress''")
      case False
      with assms p line two have "s1 = ?s1" by (simp add: drain_body_def Let_def)
      with out less k1 u1 show ?thesis by simp
    next
      case True
      with assms p line two obtain i2 where
        pi: "process_info fuel ?s1 (AList.update k (Str v) i) = Return i2 s1 evs"
        by (auto simp: drain_body_def Let_def split: outcome.splits)
      from process_info_frame [OF disjI1, OF pi] have f: "frame ?s1 s1" .
      from process_info_unscanned [OF pi] have u: "unscanned ?s1 s1" .
      from f out less have "length (stdout_of s1) < length (stdout_of s)"
        by (simp add: frame_def)
      moreover from f k1 have "kept s s1" by (auto simp: frame_def intro: kept_trans)
      moreover from u1 u have "unscanned s s1" by (rule unscanned_trans)
      ultimately show ?thesis by simp
    qed
  qed
  then show "length (stdout_of s1) < length (stdout_of s)"
    and "kept s s1" and "unscanned s s1" by simp_all
qed

function drain :: "nat \<Rightarrow> ffmpegThread \<Rightarrow> info \<Rightarrow> unit outcome" where
  "drain fuel s i =
     (case drain_body fuel s i of
        Break r \<Rightarrow> r
      | Again s1 i1 evs \<Rightarrow> emit evs (drain fuel s1 i1))"
  by pat_completeness auto
termination
  by (relation "measure (\<lambda>(fuel, s, i). length (stdout_of s))")
     (auto dest: drain_body_Again(1))

declare drain.simps [simp del]

definition cmd :: "string \<Rightarrow> ffmpegThread \<Rightarrow> string list" where
  \<comment> \<open>the command line of \<open>run\<close>; the executable is what \<open>shutil.which\<close> found\<close>
  "cmd ffmpeg_executable s = [ffmpeg_executable, ''-progress'', ''-''] @ parameters s"

definition run :: "nat \<Rightarrow> ffmpegThread \<Rightarrow> popen \<Rightarrow> unit outcome" where
  \<comment> \<open>\<open>proc\<close> is the process \<open>subprocess.Popen\<close> started: what its two pipes will
      deliver, and what \<open>poll()\<close> answers when the progress pipe has been drained\<close>
  "run fuel s proc =
     (case drain fuel (s\<lparr>ffmpeg := Value (Some proc)\<rparr>) [] of
        Return u s1 evs \<Rightarrow>
          (case ffmpeg s1 of
             Value (Some p) \<Rightarrow>
               Return () (s1\<lparr>exitcode := Value (p_poll p),
                             stderr := Value (p_stderr p),
                             ffmpeg := Value None\<rparr>) evs
           | _ \<Rightarrow> Raise AttributeError s1 evs)
      | Raise e s1 evs \<Rightarrow> Raise e s1 evs
      | OutOfFuel \<Rightarrow> OutOfFuel)"

definition exception :: "ffmpegThread \<Rightarrow> FFMPEGError option outcome" where
  "exception s =
     (case exitcode s of
        Missing \<Rightarrow> Raise IOError s []
      | Value None \<Rightarrow> Return None s []
      | Value (Some n) \<Rightarrow>
          if n \<noteq> 0
          then (case stderr s of
                  Missing \<Rightarrow> Raise AttributeError s []
                | Value b \<Rightarrow> Return (Some (FFMPEGError n b)) s [])
          else Return None s [])"

section \<open>Properties\<close>

subsection \<open>The drain loop changes nothing but the pipes and the cached duration\<close>

lemma emit_Return:
  "emit a r = Return u s es \<longleftrightarrow> (\<exists>es'. r = Return u s es' \<and> es = a @ es')"
  by (cases r) (auto simp: emit_def)

lemma emit_Raise:
  "emit a r = Raise e s es \<longleftrightarrow> (\<exists>es'. r = Raise e s es' \<and> es = a @ es')"
  by (cases r) (auto simp: emit_def)

lemma emit_OutOfFuel [simp]: "emit a r = OutOfFuel \<longleftrightarrow> r = OutOfFuel"
  by (cases r) (auto simp: emit_def)

lemma drain_body_Break_kept:
  assumes "drain_body fuel s i = Break (Return u s' evs)
           \<or> drain_body fuel s i = Break (Raise e s' evs)"
  shows "kept s s'"
proof (cases "\<exists>p. ffmpeg s = Value (Some p)")
  case False
  with assms show ?thesis
    by (auto simp: drain_body_def split: attribute.splits option.splits)
next
  case True
  then obtain p where p: "ffmpeg s = Value (Some p)" by blast
  let ?r = "readline (p_stdout p)"
  let ?s1 = "s\<lparr>ffmpeg := Value (Some (p\<lparr>p_stdout := snd ?r\<rparr>))\<rparr>"
  have k1: "kept s ?s1" using p by (rule kept_stdout_upd)
  show ?thesis
  proof (cases "strip (fst ?r) = []")
    case True
    with assms p k1 show ?thesis by (auto simp: drain_body_def Let_def)
  next
    case False
    from split_once_cases [of "CHR ''=''" "decode_ascii_ignore (strip (fst ?r))"]
    show ?thesis
    proof cases
      case one
      with assms p False k1 show ?thesis by (auto simp: drain_body_def Let_def)
    next
      case (two k v)
      show ?thesis
      proof (cases "k = ''progress''")
        case False
        with assms p \<open>strip (fst ?r) \<noteq> []\<close> two show ?thesis
          by (simp add: drain_body_def Let_def)
      next
        case True
        with assms p \<open>strip (fst ?r) \<noteq> []\<close> two
        have "process_info fuel ?s1 (AList.update k (Str v) i) = Raise e s' evs"
          by (auto simp: drain_body_def Let_def split: outcome.splits)
        from process_info_frame [OF disjI2, OF this] k1 show ?thesis
          by (auto simp: frame_def intro: kept_trans)
      qed
    qed
  qed
qed

lemma drain_body_Break_Return:
  assumes "drain_body fuel s i = Break (Return u s' evs)"
  shows "unscanned s s' \<and> evs = [] \<and> has_handle s'"
proof -
  from assms obtain p where p: "ffmpeg s = Value (Some p)"
    by (auto simp: drain_body_def split: attribute.splits option.splits)
  let ?r = "readline (p_stdout p)"
  let ?s1 = "s\<lparr>ffmpeg := Value (Some (p\<lparr>p_stdout := snd ?r\<rparr>))\<rparr>"
  have u1: "unscanned s ?s1" using p by (rule unscanned_stdout_upd)
  have "strip (fst ?r) = []"
  proof (rule ccontr)
    assume ne: "strip (fst ?r) \<noteq> []"
    from split_once_cases [of "CHR ''=''" "decode_ascii_ignore (strip (fst ?r))"]
    show False
    proof cases
      case one
      with assms p ne show ?thesis by (simp add: drain_body_def Let_def)
    next
      case (two k v)
      with assms p ne show ?thesis
        by (auto simp: drain_body_def Let_def split: if_splits outcome.splits)
    qed
  qed
  with assms p have "s' = ?s1" "evs = []" by (simp_all add: drain_body_def Let_def)
  with u1 show ?thesis by (simp add: has_handle_def)
qed

lemma drain_kept:
  "drain fuel s i = Return u s' evs \<or> drain fuel s i = Raise e s' evs \<Longrightarrow> kept s s'"
proof (induction fuel s i arbitrary: evs rule: drain.induct)
  case (1 fuel s i)
  show ?case
  proof (cases "drain_body fuel s i")
    case (Break r)
    with "1.prems" show ?thesis
      by (auto simp: drain.simps [of fuel s i] dest: drain_body_Break_kept [OF disjI1]
            drain_body_Break_kept [OF disjI2])
  next
    case (Again s1 i1 evs1)
    with "1.prems" obtain es where
      "drain fuel s1 i1 = Return u s' es \<or> drain fuel s1 i1 = Raise e s' es"
      by (auto simp: drain.simps [of fuel s i] emit_Return emit_Raise)
    from "1.IH" [OF Again this] drain_body_Again(2) [OF Again] show ?thesis
      by (rule kept_trans [rotated])
  qed
qed

lemma drain_Return:
  "drain fuel s i = Return u s' evs \<Longrightarrow> unscanned s s' \<and> has_handle s'"
proof (induction fuel s i arbitrary: evs rule: drain.induct)
  case (1 fuel s i)
  show ?case
  proof (cases "drain_body fuel s i")
    case (Break r)
    with "1.prems" show ?thesis
      by (auto simp: drain.simps [of fuel s i] dest: drain_body_Break_Return)
  next
    case (Again s1 i1 evs1)
    with "1.prems" obtain es where "drain fuel s1 i1 = Return u s' es"
      by (auto simp: drain.simps [of fuel s i] emit_Return)
    from "1.IH" [OF Again this] drain_body_Again(3) [OF Again] show ?thesis
      by (auto intro: unscanned_trans)
  qed
qed

subsection \<open>What \<open>run\<close> records\<close>

lemma has_handle_iff: "has_handle s \<longleftrightarrow> (\<exists>p. ffmpeg s = Value (Some p))"
  by (simp add: has_handle_def split: attribute.split option.split)

lemma run_unfold:
  "run fuel s proc =
     (case drain fuel (s\<lparr>ffmpeg := Value (Some proc)\<rparr>) [] of
        Return u s1 evs \<Rightarrow>
          Return () (s1\<lparr>exitcode := Value (poll_of s1), stderr := Value (stderr_of s1),
                        ffmpeg := Value None\<rparr>) evs
      | Raise e s1 evs \<Rightarrow> Raise e s1 evs
      | OutOfFuel \<Rightarrow> OutOfFuel)"
proof (cases "drain fuel (s\<lparr>ffmpeg := Value (Some proc)\<rparr>) []")
  case (Return u s1 evs)
  from drain_Return [OF Return] have "has_handle s1" by simp
  then obtain q where "ffmpeg s1 = Value (Some q)"
    unfolding has_handle_iff by (rule exE)
  with Return show ?thesis
    by (simp add: run_def poll_of_def stderr_of_def)
next
  case (Raise e s1 evs)
  then show ?thesis by (simp add: run_def)
next
  case OutOfFuel
  then show ?thesis by (simp add: run_def)
qed

lemma run_ReturnE:
  assumes "run fuel s proc = Return u s' evs"
  obtains consumed buf where
    "p_stderr proc = consumed @ buf" and "stderr s' = Value buf"
    and "input_duration_attr s' = None \<longrightarrow> consumed = []"
    and "exitcode s' = Value (p_poll proc)" and "ffmpeg s' = Value None"
proof -
  let ?s0 = "s\<lparr>ffmpeg := Value (Some proc)\<rparr>"
  have "\<exists>s1. drain fuel ?s0 [] = Return () s1 evs
      \<and> s' = s1\<lparr>exitcode := Value (poll_of s1), stderr := Value (stderr_of s1),
                  ffmpeg := Value None\<rparr>"
    using assms by (cases "drain fuel ?s0 []") (simp_all add: run_unfold)
  then obtain s1 where d: "drain fuel ?s0 [] = Return () s1 evs"
    and s': "s' = s1\<lparr>exitcode := Value (poll_of s1), stderr := Value (stderr_of s1),
                         ffmpeg := Value None\<rparr>"
    by (elim exE conjE)
  from drain_kept [OF disjI1, OF d] have k: "kept ?s0 s1" .
  from drain_Return [OF d] have u: "unscanned ?s0 s1" by (rule conjunct1)
  from k have p: "poll_of s1 = p_poll proc" by (simp add: kept_def poll_of_def)
  from k have "\<exists>consumed. p_stderr proc = consumed @ stderr_of s1"
    by (simp add: kept_def stderr_of_def)
  then obtain consumed where c: "p_stderr proc = consumed @ stderr_of s1"
    by (rule exE)
  have n: "input_duration_attr s' = None \<longrightarrow> consumed = []"
  proof
    assume "input_duration_attr s' = None"
    then have "input_duration_attr s1 = None" unfolding s' by simp
    with u have "stderr_of s1 = p_stderr proc" by (simp add: unscanned_def stderr_of_def)
    with c show "consumed = []" by simp
  qed
  show thesis
  proof (rule that [of consumed "stderr_of s1"])
    show "p_stderr proc = consumed @ stderr_of s1" by (rule c)
    show "stderr s' = Value (stderr_of s1)" unfolding s' by simp
    show "input_duration_attr s' = None \<longrightarrow> consumed = []" by (rule n)
    show "exitcode s' = Value (p_poll proc)" unfolding s' using p by simp
    show "ffmpeg s' = Value None" unfolding s' by simp
  qed
qed

lemma run_Raise:
  assumes "run fuel s proc = Raise e s' evs"
  shows "exitcode s' = exitcode s" and "stderr s' = stderr s" and "has_handle s'"
proof -
  let ?s0 = "s\<lparr>ffmpeg := Value (Some proc)\<rparr>"
  from assms have "drain fuel ?s0 [] = Raise e s' evs"
    by (cases "drain fuel ?s0 []") (simp_all add: run_unfold)
  from drain_kept [OF disjI2, OF this] have k: "kept ?s0 s'" .
  from k show "exitcode s' = exitcode s" by (simp add: kept_def)
  from k show "stderr s' = stderr s" by (simp add: kept_def)
  from k have "has_handle s' = has_handle ?s0" by (simp add: kept_def)
  then show "has_handle s'" by (simp add: has_handle_def)
qed

lemma exception_recorded:
  assumes "exitcode s = Value c" and "stderr s = Value buf"
  shows "exception s =
      Return (case c of
                None \<Rightarrow> None
              | Some n \<Rightarrow> if n = 0 then None else Some (FFMPEGError n buf)) s []"
proof (cases c)
  case None
  then show ?thesis unfolding exception_def assms by simp
next
  case (Some n)
  then show ?thesis unfolding exception_def assms by simp
qed

subsection \<open>A run that fails at once\<close>

definition fatal_proc :: popen where
  "fatal_proc = \<lparr>p_stdout = [], p_stderr = ''fatal error'', p_poll = Some 1\<rparr>"

definition fatal_final :: ffmpegThread where
  "fatal_final = (init [] True True)\<lparr>ffmpeg := Value None, exitcode := Value (Some 1),
                                     stderr := Value ''fatal error''\<rparr>"

lemma body_fatal:
  "drain_body 3 ((init [] True True)\<lparr>ffmpeg := Value (Some fatal_proc)\<rparr>) [] =
   Break (Return () ((init [] True True)\<lparr>ffmpeg := Value (Some fatal_proc)\<rparr>) [])"
  by (simp add: drain_body_def fatal_proc_def init_def readline_def)

lemma run_fatal: "run 3 (init [] True True) fatal_proc = Return () fatal_final []"
  by (simp add: run_def drain.simps body_fatal fatal_final_def) (simp add: fatal_proc_def init_def)

subsection \<open>Queries after the handle is gone\<close>

text \<open>
  C6. Once \<open>run\<close> has released the handle, asking for the duration that was never
  found raises the I/O error; no value is returned.
\<close>

theorem input_duration_after_teardown:
  assumes "run fuel s proc = Return u s' evs" and "input_duration_attr s' = None"
  shows "ffmpeg s' = Value None \<and> input_duration fuel' s' = Raise IOError s' []"
proof -
  from assms(1) obtain consumed buf where h: "ffmpeg s' = Value None"
    by (rule run_ReturnE)
  with assms(2) show ?thesis by (simp add: input_duration_def)
qed

theorem input_duration_after_teardown_witness:
  "run 3 (init [] True True) fatal_proc = Return () fatal_final []
   \<and> input_duration_attr fatal_final = None
   \<and> input_duration 7 fatal_final = Raise IOError fatal_final []"
proof -
  have n: "input_duration_attr fatal_final = None"
    by (simp add: fatal_final_def init_def)
  from input_duration_after_teardown [OF run_fatal n, of 7]
  have "input_duration 7 fatal_final = Raise IOError fatal_final []" by (rule conjunct2)
  with run_fatal n show ?thesis by (intro conjI)
qed

text \<open>
  C7, as the code has it. Before an exit status is recorded the query raises the I/O
  error. After a completed run whose recorded status is an integer, it returns the error
  value when the status is not zero and \<open>None\<close> when it is zero.
\<close>

theorem exception_before_and_after_run:
  "(exitcode s = Missing \<longrightarrow> exception s = Raise IOError s [])
   \<and> (run fuel s proc = Return u s' evs \<and> p_poll proc = Some n \<longrightarrow>
        (\<exists>buf. stderr s' = Value buf
           \<and> exception s' =
               Return (if n = 0 then None else Some (FFMPEGError n buf)) s' []))"
proof (intro conjI impI)
  assume "exitcode s = Missing"
  then show "exception s = Raise IOError s []" by (simp add: exception_def)
next
  assume a: "run fuel s proc = Return u s' evs \<and> p_poll proc = Some n"
  then have r: "run fuel s proc = Return u s' evs" and p: "p_poll proc = Some n"
    by (rule conjunct1, rule conjunct2)
  from r obtain consumed buf where b: "stderr s' = Value buf"
    and e: "exitcode s' = Value (p_poll proc)"
    by (rule run_ReturnE)
  from e have "exitcode s' = Value (Some n)" unfolding p .
  from exception_recorded [OF this b]
  have "exception s' = Return (if n = 0 then None else Some (FFMPEGError n buf)) s' []"
    by simp
  with b show "\<exists>buf. stderr s' = Value buf
           \<and> exception s' =
               Return (if n = 0 then None else Some (FFMPEGError n buf)) s' []"
    by (intro exI conjI)
qed

definition running :: ffmpegThread where
  \<comment> \<open>the thread while \<open>run\<close> is draining: the handle is set, nothing is recorded\<close>
  "running = (init [] True True)\<lparr>ffmpeg := Value (Some fatal_proc)\<rparr>"

theorem exception_while_running:
  "exitcode running = Missing
   \<and> exception running = Raise IOError running []
   \<and> exception running \<noteq> Return None running []"
  by (simp add: running_def init_def exception_def)

theorem exception_before_and_after_run_witness:
  "exitcode running = Missing \<and> exception running = Raise IOError running []
   \<and> run 3 (init [] True True) fatal_proc = Return () fatal_final []
   \<and> p_poll fatal_proc = Some 1
   \<and> (\<exists>buf. stderr fatal_final = Value buf
         \<and> exception fatal_final =
             Return (if (1::int) = 0 then None else Some (FFMPEGError 1 buf)) fatal_final [])"
proof -
  have m: "exitcode running = Missing" by (simp add: running_def init_def)
  have p: "p_poll fatal_proc = Some 1" by (simp add: fatal_proc_def)
  note t1 = exception_before_and_after_run [where s = running]
  note t2 = exception_before_and_after_run
    [where s = "init [] True True" and fuel = 3 and proc = fatal_proc
       and s' = fatal_final and evs = "[]" and n = 1]
  from t1 have "exitcode running = Missing \<longrightarrow> exception running = Raise IOError running []"
    by (rule conjunct1)
  with m have x: "exception running = Raise IOError running []" by (rule rev_mp)
  from t2 have "run 3 (init [] True True) fatal_proc = Return () fatal_final []
      \<and> p_poll fatal_proc = Some 1 \<longrightarrow>
      (\<exists>buf. stderr fatal_final = Value buf
         \<and> exception fatal_final =
             Return (if (1::int) = 0 then None else Some (FFMPEGError 1 buf)) fatal_final [])"
    by (rule conjunct2)
  moreover have "run 3 (init [] True True) fatal_proc = Return () fatal_final []
      \<and> p_poll fatal_proc = Some 1"
    using run_fatal p by (rule conjI)
  ultimately have y: "\<exists>buf. stderr fatal_final = Value buf
         \<and> exception fatal_final =
             Return (if (1::int) = 0 then None else Some (FFMPEGError 1 buf)) fatal_final []"
    by (rule mp)
  from m x run_fatal p y show ?thesis by (intro conjI)
qed

subsection \<open>The exit status is polled, not awaited\<close>

definition still_running_proc :: popen where
  \<comment> \<open>the progress pipe is at its end and the process has not exited yet\<close>
  "still_running_proc = \<lparr>p_stdout = [], p_stderr = [], p_poll = None\<rparr>"

lemma body_still_running:
  "drain_body 3 ((init [] True True)\<lparr>ffmpeg := Value (Some still_running_proc)\<rparr>) [] =
   Break (Return () ((init [] True True)\<lparr>ffmpeg := Value (Some still_running_proc)\<rparr>) [])"
  by (simp add: drain_body_def still_running_proc_def init_def readline_def)

text \<open>
  C9. \<open>run\<close> records what \<open>poll()\<close> answers when the progress pipe closes. For a process
  that has not exited by then the recorded status is \<open>None\<close>, not an integer, and
  \<open>exception\<close> then reports no failure.
\<close>

theorem exitcode_recorded_while_running:
  "run 3 (init [] True True) still_running_proc =
     Return () ((init [] True True)\<lparr>ffmpeg := Value None, exitcode := Value None,
                                     stderr := Value []\<rparr>) []
   \<and> exception ((init [] True True)\<lparr>ffmpeg := Value None, exitcode := Value None,
                                     stderr := Value []\<rparr>) =
     Return None ((init [] True True)\<lparr>ffmpeg := Value None, exitcode := Value None,
                                     stderr := Value []\<rparr>) []"
proof (rule conjI)
  show "run 3 (init [] True True) still_running_proc =
     Return () ((init [] True True)\<lparr>ffmpeg := Value None, exitcode := Value None,
                                     stderr := Value []\<rparr>) []"
    by (simp add: run_def drain.simps body_still_running)
       (simp add: still_running_proc_def init_def)
  show "exception ((init [] True True)\<lparr>ffmpeg := Value None, exitcode := Value None,
                                     stderr := Value []\<rparr>) =
     Return None ((init [] True True)\<lparr>ffmpeg := Value None, exitcode := Value None,
                                     stderr := Value []\<rparr>) []"
    by (simp add: exception_def init_def)
qed

subsection \<open>The duration scan on a stream without a marker\<close>

lemma match_here_append:
  assumes "match_here a = Some g"
  shows "match_here (a @ b) = Some g"
proof -
  let ?x = "drop 10 a"
  from assms have t: "take 10 a = ''Duration: ''"
    by (simp add: match_here_def split: if_splits)
  then have "length (take 10 a) = 10" by simp
  then have len: "10 \<le> length a" by simp
  from assms t have g: "takeWhile duration_class ?x = g" and g0: "g \<noteq> []"
    and d0: "dropWhile duration_class ?x \<noteq> []"
    and c: "hd (dropWhile duration_class ?x) = CHR '',''"
    by (simp_all add: match_here_def Let_def split: if_splits)
  from d0 obtain y where y: "y \<in> set ?x" "\<not> duration_class y"
    by (auto simp: dropWhile_eq_Nil_conv)
  have t': "take 10 (a @ b) = ''Duration: ''" using len t by simp
  have dr: "drop 10 (a @ b) = ?x @ b" using len by simp
  have tw: "takeWhile duration_class (?x @ b) = takeWhile duration_class ?x"
    using y by (rule takeWhile_append1)
  have dw: "dropWhile duration_class (?x @ b) = dropWhile duration_class ?x @ b"
    using y by (rule dropWhile_append1)
  have "hd (dropWhile duration_class ?x @ b) = CHR '',''" using d0 c by simp
  with t' g g0 d0 show ?thesis
    unfolding match_here_def dr tw dw Let_def by simp
qed

lemma duration_re_search_prefix:
  "duration_re_search (a @ b) = None \<Longrightarrow> duration_re_search a = None"
proof (induction a)
  case Nil
  then show ?case by simp
next
  case (Cons c cs)
  show ?case
  proof (cases "match_here (c # cs)")
    case None
    from Cons.prems have "duration_re_search (cs @ b) = None"
      by (simp split: option.splits)
    then have "duration_re_search cs = None" by (rule Cons.IH)
    with None show ?thesis by simp
  next
    case (Some h)
    then have "match_here ((c # cs) @ b) = Some h" by (rule match_here_append)
    with Cons.prems show ?thesis by simp
  qed
qed

lemma duration_re_search_suffix:
  "duration_re_search (a @ b) = None \<Longrightarrow> duration_re_search b = None"
  by (induction a) (simp_all split: option.splits)

lemma decode_append:
  "decode_ascii_ignore (a @ b) = decode_ascii_ignore a @ decode_ascii_ignore b"
  by (simp add: decode_ascii_ignore_def)

lemma no_marker_readline:
  assumes "duration_re_search (decode_ascii_ignore err) = None"
  shows "duration_re_search (decode_ascii_ignore (fst (readline err))) = None"
    and "duration_re_search (decode_ascii_ignore (snd (readline err))) = None"
proof -
  have "decode_ascii_ignore err =
      decode_ascii_ignore (fst (readline err)) @ decode_ascii_ignore (snd (readline err))"
    using readline_append [of err] decode_append by metis
  with assms have n: "duration_re_search
      (decode_ascii_ignore (fst (readline err)) @ decode_ascii_ignore (snd (readline err))) = None"
    by simp
  from n show "duration_re_search (decode_ascii_ignore (fst (readline err))) = None"
    by (rule duration_re_search_prefix)
  from n show "duration_re_search (decode_ascii_ignore (snd (readline err))) = None"
    by (rule duration_re_search_suffix)
qed

lemma input_duration_loop_no_marker:
  "ffmpeg s = Value (Some p) \<Longrightarrow>
   duration_re_search (decode_ascii_ignore (p_stderr p)) = None \<Longrightarrow>
   input_duration_loop fuel s = OutOfFuel"
proof (induction fuel arbitrary: s p)
  case 0
  show ?case by simp
next
  case (Suc fuel)
  let ?r = "readline (p_stderr p)"
  let ?p1 = "p\<lparr>p_stderr := snd ?r\<rparr>"
  let ?s1 = "s\<lparr>ffmpeg := Value (Some ?p1)\<rparr>"
  from no_marker_readline [OF Suc.prems(2)]
  have l: "duration_re_search (decode_ascii_ignore (fst ?r)) = None"
    and r: "duration_re_search (decode_ascii_ignore (snd ?r)) = None" .
  have "ffmpeg ?s1 = Value (Some ?p1)" by simp
  moreover have "duration_re_search (decode_ascii_ignore (p_stderr ?p1)) = None"
    using r by simp
  ultimately have "input_duration_loop fuel ?s1 = OutOfFuel" by (rule Suc.IH)
  with Suc.prems(1) l show ?case by (simp add: Let_def)
qed

text \<open>
  C5. With the handle still held and no duration marker anywhere in what the diagnostic
  pipe will deliver, the accessor is still reading after any number of reads: at the end
  of the stream \<open>readline\<close> gives the empty line again and again, and nothing leaves
  the loop.
\<close>

theorem input_duration_spins_without_marker:
  assumes "input_duration_attr s = None" and "ffmpeg s = Value (Some p)"
    and "duration_re_search (decode_ascii_ignore (p_stderr p)) = None"
  shows "input_duration fuel s = OutOfFuel"
  using assms by (simp add: input_duration_def input_duration_loop_no_marker)

definition no_duration_proc :: popen where
  \<comment> \<open>what ffmpeg prints for an input of unknown length, then the end of the stream\<close>
  "no_duration_proc =
     \<lparr>p_stdout = ''out_time_ms=500000'' @ [NL] @ ''progress=continue'' @ [NL],
      p_stderr = ''  Duration: N/A, bitrate: N/A'' @ [NL], p_poll = Some 0\<rparr>"

lemma no_duration_search:
  "duration_re_search (decode_ascii_ignore (p_stderr no_duration_proc)) = None"
  by (simp add: no_duration_proc_def decode_ascii_ignore_def NL_def match_here_def
        duration_class_def is_digit_def)

theorem input_duration_spins_without_marker_witness:
  "input_duration 1000 ((init [] True True)\<lparr>ffmpeg := Value (Some no_duration_proc)\<rparr>)
   = OutOfFuel"
proof -
  have "input_duration_attr ((init [] True True)\<lparr>ffmpeg := Value (Some no_duration_proc)\<rparr>)
      = None"
    by (simp add: init_def)
  moreover have "ffmpeg ((init [] True True)\<lparr>ffmpeg := Value (Some no_duration_proc)\<rparr>)
      = Value (Some no_duration_proc)"
    by simp
  ultimately show ?thesis
    using no_duration_search by (rule input_duration_spins_without_marker)
qed

subsection \<open>Lines of the progress pipe without a separator\<close>

lemma drain_body_blank:
  assumes "ffmpeg s = Value (Some p)" and "strip (fst (readline (p_stdout p))) = []"
  shows "drain_body fuel s i =
    Break (Return () (s\<lparr>ffmpeg := Value (Some (p\<lparr>p_stdout := snd (readline (p_stdout p))\<rparr>))\<rparr>) [])"
  using assms by (simp add: drain_body_def Let_def)

lemma drain_body_no_separator:
  assumes "ffmpeg s = Value (Some p)" and "strip (fst (readline (p_stdout p))) \<noteq> []"
    and "CHR ''='' \<notin> set (decode_ascii_ignore (strip (fst (readline (p_stdout p)))))"
  shows "drain_body fuel s i =
    Break (Raise ValueError
      (s\<lparr>ffmpeg := Value (Some (p\<lparr>p_stdout := snd (readline (p_stdout p))\<rparr>))\<rparr>) [])"
  using assms by (simp add: drain_body_def Let_def split_once_def)

text \<open>
  C8, as the code has it. A line that is blank once stripped (the empty read at the end
  of the stream included) ends the loop without an error. A line that is not blank and
  has no \<open>=\<close> makes the unpacking of \<open>line.split("=", 1)\<close> raise ValueError.
\<close>

theorem drain_line_without_separator:
  assumes "ffmpeg s = Value (Some p)"
  shows "(strip (fst (readline (p_stdout p))) = [] \<longrightarrow>
            drain fuel s i =
              Return () (s\<lparr>ffmpeg := Value (Some (p\<lparr>p_stdout := snd (readline (p_stdout p))\<rparr>))\<rparr>) [])
       \<and> (strip (fst (readline (p_stdout p))) \<noteq> []
            \<and> CHR ''='' \<notin> set (decode_ascii_ignore (strip (fst (readline (p_stdout p))))) \<longrightarrow>
            drain fuel s i =
              Raise ValueError
                (s\<lparr>ffmpeg := Value (Some (p\<lparr>p_stdout := snd (readline (p_stdout p))\<rparr>))\<rparr>) [])"
proof (intro conjI impI)
  assume "strip (fst (readline (p_stdout p))) = []"
  with assms show "drain fuel s i =
      Return () (s\<lparr>ffmpeg := Value (Some (p\<lparr>p_stdout := snd (readline (p_stdout p))\<rparr>))\<rparr>) []"
    by (simp add: drain.simps [of fuel s i] drain_body_blank)
next
  assume "strip (fst (readline (p_stdout p))) \<noteq> []
      \<and> CHR ''='' \<notin> set (decode_ascii_ignore (strip (fst (readline (p_stdout p)))))"
  with assms show "drain fuel s i =
      Raise ValueError
        (s\<lparr>ffmpeg := Value (Some (p\<lparr>p_stdout := snd (readline (p_stdout p))\<rparr>))\<rparr>) []"
    by (simp add: drain.simps [of fuel s i] drain_body_no_separator)
qed

definition chatter_proc :: popen where
  \<comment> \<open>a line that is not blank and has no separator, then the end of the stream\<close>
  "chatter_proc = \<lparr>p_stdout = ''frame 12'' @ [NL], p_stderr = [], p_poll = Some 0\<rparr>"

lemma readline_chatter:
  "readline (''frame 12'' @ [NL]) = (''frame 12'' @ [NL], [])"
  by (simp add: readline_def NL_def)

lemma body_chatter:
  "drain_body 3 ((init [] True True)\<lparr>ffmpeg := Value (Some chatter_proc)\<rparr>) [] =
   Break (Raise ValueError
     ((init [] True True)\<lparr>ffmpeg := Value (Some (chatter_proc\<lparr>p_stdout := []\<rparr>))\<rparr>) [])"
proof -
  let ?s = "(init [] True True)\<lparr>ffmpeg := Value (Some chatter_proc)\<rparr>"
  have h: "ffmpeg ?s = Value (Some chatter_proc)" by simp
  have o: "p_stdout chatter_proc = ''frame 12'' @ [NL]" by (simp add: chatter_proc_def)
  have l: "strip (fst (readline (p_stdout chatter_proc))) = ''frame 12''"
    unfolding o readline_chatter by (simp add: strip_def is_space_def NL_def)
  have r: "snd (readline (p_stdout chatter_proc)) = []"
    unfolding o readline_chatter by simp
  have "drain_body 3 ?s [] =
    Break (Raise ValueError
      (?s\<lparr>ffmpeg := Value (Some (chatter_proc\<lparr>p_stdout :=
           snd (readline (p_stdout chatter_proc))\<rparr>))\<rparr>) [])"
    using h by (rule drain_body_no_separator) (simp_all add: l decode_ascii_ignore_def)
  then show ?thesis unfolding r by simp
qed

theorem run_raises_on_line_without_separator:
  "run 3 (init [] True True) chatter_proc =
     Raise ValueError
       ((init [] True True)\<lparr>ffmpeg := Value (Some (chatter_proc\<lparr>p_stdout := []\<rparr>))\<rparr>) []"
  by (simp add: run_def drain.simps body_chatter)

theorem drain_line_without_separator_witness:
  "drain 3 ((init [] True True)\<lparr>ffmpeg := Value (Some chatter_proc)\<rparr>) [] =
     Raise ValueError
       ((init [] True True)\<lparr>ffmpeg := Value (Some (chatter_proc\<lparr>p_stdout := []\<rparr>))\<rparr>) []
   \<and> drain 3 ((init [] True True)\<lparr>ffmpeg := Value (Some fatal_proc)\<rparr>) [] =
     Return () ((init [] True True)\<lparr>ffmpeg := Value (Some fatal_proc)\<rparr>) []"
proof -
  let ?s = "(init [] True True)\<lparr>ffmpeg := Value (Some chatter_proc)\<rparr>"
  let ?t = "(init [] True True)\<lparr>ffmpeg := Value (Some fatal_proc)\<rparr>"
  have o: "p_stdout chatter_proc = ''frame 12'' @ [NL]" by (simp add: chatter_proc_def)
  have l: "strip (fst (readline (p_stdout chatter_proc))) = ''frame 12''"
    unfolding o readline_chatter by (simp add: strip_def is_space_def NL_def)
  have r: "snd (readline (p_stdout chatter_proc)) = []"
    unfolding o readline_chatter by simp
  have hs: "ffmpeg ?s = Value (Some chatter_proc)" by simp
  have ht: "ffmpeg ?t = Value (Some fatal_proc)" by simp
  from drain_line_without_separator [OF hs, of 3 "[]"]
  have "drain 3 ?s [] =
      Raise ValueError (?s\<lparr>ffmpeg := Value (Some (chatter_proc\<lparr>p_stdout := []\<rparr>))\<rparr>) []"
    unfolding l r by (simp add: decode_ascii_ignore_def)
  moreover from drain_line_without_separator [OF ht, of 3 "[]"]
  have "drain 3 ?t [] = Return () ?t []"
    by (simp add: fatal_proc_def readline_def)
  ultimately show ?thesis by simp
qed

subsection \<open>What the duration scan leaves of the diagnostic pipe\<close>

lemma readline_Nil [simp]: "readline [] = ([], [])"
  by (simp add: readline_def)

lemma fst_readline_nonempty:
  assumes "s \<noteq> []"
  shows "fst (readline s) \<noteq> []"
proof (cases "dropWhile (\<lambda>c. c \<noteq> NL) s")
  case Nil
  from assms show ?thesis unfolding readline_def Nil by simp
next
  case (Cons x xs)
  show ?thesis unfolding readline_def Cons by simp
qed

function after_duration_line :: "string \<Rightarrow> string option" where
  \<comment> \<open>what the loop of lines 63 to 68 leaves unread of a diagnostic stream: the bytes
      after the first line the regular expression matches; \<open>None\<close> when no line
      matches, and the loop does not end\<close>
  "after_duration_line err =
     (let r = readline err
      in case duration_re_search (decode_ascii_ignore (fst r)) of
           Some g \<Rightarrow> Some (snd r)
         | None \<Rightarrow> if err = [] then None else after_duration_line (snd r))"
  by pat_completeness auto
termination
  by (relation "measure length") (simp_all add: readline_shorter fst_readline_nonempty)

declare after_duration_line.simps [simp del]

definition scanned :: "ffmpegThread \<Rightarrow> ffmpegThread \<Rightarrow> bool" where
  \<comment> \<open>from \<open>s\<close> to \<open>s'\<close> the diagnostic pipe was read by at most one duration scan,
      and only when no duration was cached\<close>
  "scanned s s' =
     (case input_duration_attr s of
        Some d \<Rightarrow> input_duration_attr s' = Some d \<and> stderr_of s' = stderr_of s
      | None \<Rightarrow>
          (case input_duration_attr s' of
             None \<Rightarrow> stderr_of s' = stderr_of s
           | Some d \<Rightarrow> after_duration_line (stderr_of s) = Some (stderr_of s')))"

lemma scanned_refl [simp]: "scanned s s"
  by (simp add: scanned_def split: option.split)

lemma scanned_trans: "scanned a b \<Longrightarrow> scanned b c \<Longrightarrow> scanned a c"
  by (cases "input_duration_attr a"; cases "input_duration_attr b";
      cases "input_duration_attr c") (simp_all add: scanned_def)

lemma scanned_stdout_upd:
  "ffmpeg s = Value (Some p) \<Longrightarrow>
   scanned s (s\<lparr>ffmpeg := Value (Some (p\<lparr>p_stdout := x\<rparr>))\<rparr>)"
  by (simp add: scanned_def stderr_of_def split: option.split)

lemma input_duration_loop_leaves:
  "input_duration_loop n s = Return d s' evs \<Longrightarrow>
   after_duration_line (stderr_of s) = Some (stderr_of s')"
proof (induction n arbitrary: s)
  case 0
  then show ?case by simp
next
  case (Suc n)
  show ?case
  proof (cases "ffmpeg s")
    case Missing
    with Suc.prems show ?thesis by simp
  next
    case (Value h)
    show ?thesis
    proof (cases h)
      case None
      with Value Suc.prems show ?thesis by simp
    next
      case (Some p)
      let ?r = "readline (p_stderr p)"
      let ?s1 = "s\<lparr>ffmpeg := Value (Some (p\<lparr>p_stderr := snd ?r\<rparr>))\<rparr>"
      have e: "stderr_of s = p_stderr p" and e1: "stderr_of ?s1 = snd ?r"
        using Value Some by (simp_all add: stderr_of_def)
      show ?thesis
      proof (cases "duration_re_search (decode_ascii_ignore (fst ?r))")
        case None
        with Suc.prems Value Some
        have "input_duration_loop n ?s1 = Return d s' evs"
          by (simp add: Let_def)
        from Suc.IH [OF this] have a: "after_duration_line (snd ?r) = Some (stderr_of s')"
          unfolding e1 .
        have "p_stderr p \<noteq> []"
        proof
          assume "p_stderr p = []"
          with a have "after_duration_line [] = Some (stderr_of s')" by simp
          then show False
            by (simp add: after_duration_line.simps [of "[]"] decode_ascii_ignore_def)
        qed
        with None a show ?thesis
          unfolding e by (simp add: after_duration_line.simps [of "p_stderr p"] Let_def)
      next
        case (Some g)
        show ?thesis
        proof (cases "duration_seconds g")
          case (Inl err)
          with Suc.prems Value \<open>h = Some p\<close> Some show ?thesis
            by (simp add: Let_def)
        next
          case (Inr v)
          with Suc.prems Value \<open>h = Some p\<close> Some
          have "s' = ?s1\<lparr>input_duration_attr := Some v\<rparr>"
            by (auto simp: Let_def)
          then have "stderr_of s' = snd ?r" by (simp add: stderr_of_def)
          with Some show ?thesis
            unfolding e by (simp add: after_duration_line.simps [of "p_stderr p"] Let_def)
        qed
      qed
    qed
  qed
qed

lemma input_duration_scanned:
  assumes "input_duration n s = Return d s' evs"
  shows "scanned s s'"
proof (cases "input_duration_attr s")
  case (Some c)
  with assms have "s' = s" by (simp add: input_duration_def)
  then show ?thesis by simp
next
  case None
  with assms have l: "input_duration_loop n s = Return d s' evs"
    by (simp add: input_duration_def split: attribute.splits option.splits)
  from input_duration_loop_leaves [OF l] input_duration_loop_Return [OF l] None
  show ?thesis by (simp add: scanned_def)
qed

lemma process_info_scanned:
  assumes "process_info n s i = Return i' s' evs"
  shows "scanned s s'"
proof (cases "input_duration n s")
  case (Return d s1 es)
  from input_duration_scanned [OF Return] have sc: "scanned s s1" .
  from assms Return have "s' = s \<or> s' = s1"
    by (simp add: process_info_def Let_def split: option.splits sum.splits if_splits)
  then show ?thesis
  proof
    assume "s' = s"
    then show ?thesis by simp
  next
    assume "s' = s1"
    with sc show ?thesis by simp
  qed
next
  case (Raise e s1 es)
  with assms have "s' = s"
    by (simp add: process_info_def Let_def split: option.splits sum.splits if_splits)
  then show ?thesis by simp
next
  case OutOfFuel
  with assms have "s' = s"
    by (simp add: process_info_def Let_def split: option.splits sum.splits if_splits)
  then show ?thesis by simp
qed

lemma drain_body_Again_scanned:
  assumes "drain_body fuel s i = Again s1 i1 evs"
  shows "scanned s s1"
proof -
  from assms obtain p where p: "ffmpeg s = Value (Some p)"
    by (auto simp: drain_body_def split: attribute.splits option.splits)
  let ?r = "readline (p_stdout p)"
  let ?s1 = "s\<lparr>ffmpeg := Value (Some (p\<lparr>p_stdout := snd ?r\<rparr>))\<rparr>"
  from assms p have line: "strip (fst ?r) \<noteq> []"
    by (auto simp: drain_body_def Let_def split: if_splits)
  have u1: "scanned s ?s1" using p by (rule scanned_stdout_upd)
  from split_once_cases [of "CHR ''=''" "decode_ascii_ignore (strip (fst ?r))"]
  show ?thesis
  proof cases
    case one
    with assms p line show ?thesis by (simp add: drain_body_def Let_def)
  next
    case (two k v)
    show ?thesis
    proof (cases "k = ''progress''")
      case False
      with assms p line two have "s1 = ?s1" by (simp add: drain_body_def Let_def)
      with u1 show ?thesis by simp
    next
      case True
      with assms p line two obtain i2 where
        pi: "process_info fuel ?s1 (AList.update k (Str v) i) = Return i2 s1 evs"
        by (auto simp: drain_body_def Let_def split: outcome.splits)
      from u1 process_info_scanned [OF pi] show ?thesis by (rule scanned_trans)
    qed
  qed
qed

lemma drain_body_Break_scanned:
  assumes "drain_body fuel s i = Break (Return u s' evs)"
  shows "scanned s s'"
proof -
  from assms obtain p where p: "ffmpeg s = Value (Some p)"
    by (auto simp: drain_body_def split: attribute.splits option.splits)
  let ?r = "readline (p_stdout p)"
  let ?s1 = "s\<lparr>ffmpeg := Value (Some (p\<lparr>p_stdout := snd ?r\<rparr>))\<rparr>"
  have u1: "scanned s ?s1" using p by (rule scanned_stdout_upd)
  have "strip (fst ?r) = []"
  proof (rule ccontr)
    assume ne: "strip (fst ?r) \<noteq> []"
    from split_once_cases [of "CHR ''=''" "decode_ascii_ignore (strip (fst ?r))"]
    show False
    proof cases
      case one
      with assms p ne show ?thesis by (simp add: drain_body_def Let_def)
    next
      case (two k v)
      with assms p ne show ?thesis
        by (auto simp: drain_body_def Let_def split: if_splits outcome.splits)
    qed
  qed
  with assms p have "s' = ?s1" by (simp add: drain_body_def Let_def)
  with u1 show ?thesis by simp
qed

lemma drain_scanned:
  "drain fuel s i = Return u s' evs \<Longrightarrow> scanned s s'"
proof (induction fuel s i arbitrary: evs rule: drain.induct)
  case (1 fuel s i)
  show ?case
  proof (cases "drain_body fuel s i")
    case (Break r)
    with "1.prems" have "drain_body fuel s i = Break (Return u s' evs)"
      by (simp add: drain.simps [of fuel s i])
    then show ?thesis by (rule drain_body_Break_scanned)
  next
    case (Again s1 i1 evs1)
    with "1.prems" obtain es where "drain fuel s1 i1 = Return u s' es"
      by (auto simp: drain.simps [of fuel s i] emit_Return)
    from drain_body_Again_scanned [OF Again] "1.IH" [OF Again this] show ?thesis
      by (rule scanned_trans)
  qed
qed

lemma run_stderr:
  assumes "run fuel s proc = Return u s' evs"
  obtains buf where "stderr s' = Value buf"
    and "input_duration_attr s = None \<and> input_duration_attr s' \<noteq> None \<longrightarrow>
           after_duration_line (p_stderr proc) = Some buf"
    and "input_duration_attr s \<noteq> None \<or> input_duration_attr s' = None \<longrightarrow>
           buf = p_stderr proc"
proof -
  let ?s0 = "s\<lparr>ffmpeg := Value (Some proc)\<rparr>"
  have "\<exists>s1. drain fuel ?s0 [] = Return () s1 evs
      \<and> s' = s1\<lparr>exitcode := Value (poll_of s1), stderr := Value (stderr_of s1),
                  ffmpeg := Value None\<rparr>"
    using assms by (cases "drain fuel ?s0 []") (simp_all add: run_unfold)
  then obtain s1 where d: "drain fuel ?s0 [] = Return () s1 evs"
    and s': "s' = s1\<lparr>exitcode := Value (poll_of s1), stderr := Value (stderr_of s1),
                         ffmpeg := Value None\<rparr>"
    by (elim exE conjE)
  from drain_scanned [OF d] have sc: "scanned ?s0 s1" .
  have a0: "input_duration_attr ?s0 = input_duration_attr s" by simp
  have a1: "input_duration_attr s' = input_duration_attr s1" unfolding s' by simp
  have e0: "stderr_of ?s0 = p_stderr proc" by (simp add: stderr_of_def)
  show thesis
  proof (rule that [of "stderr_of s1"])
    show "stderr s' = Value (stderr_of s1)" unfolding s' by simp
    show "input_duration_attr s = None \<and> input_duration_attr s' \<noteq> None \<longrightarrow>
           after_duration_line (p_stderr proc) = Some (stderr_of s1)"
      using sc unfolding scanned_def a0 a1 e0 by (simp split: option.splits)
    show "input_duration_attr s \<noteq> None \<or> input_duration_attr s' = None \<longrightarrow>
           stderr_of s1 = p_stderr proc"
      using sc unfolding scanned_def a0 a1 e0 by (auto split: option.splits)
  qed
qed

subsection \<open>The terminal error, and a run that looked the duration up\<close>

definition scan_proc :: popen where
  \<comment> \<open>one progress block with a positive time; ffmpeg prints the duration, then fails\<close>
  "scan_proc =
     \<lparr>p_stdout = ''out_time_ms=500000'' @ [NL] @ ''progress=continue'' @ [NL],
      p_stderr = ''Duration: 00:00:10.00, start'' @ [NL] @ ''boom'', p_poll = Some 1\<rparr>"

definition scan_final :: ffmpegThread where
  "scan_final = (init [] True True)\<lparr>input_duration_attr := Some 10, ffmpeg := Value None,
                                    exitcode := Value (Some 1), stderr := Value ''boom''\<rparr>"

definition scan_events :: "event list" where
  "scan_events =
     [Progress (1 / 20),
      Info [(''out_time_ms'', Str ''500000''), (''progress'', Str ''continue''),
            (''done'', Flt (1 / 20))]]"

lemma scan_duration: "duration_seconds ''00:00:10.00'' = Inr 10"
  by (simp add: duration_seconds_def py_float_def strip_def is_space_def is_digit_def
        digits_val_def)

lemma scan_search:
  "duration_re_search (decode_ascii_ignore (''Duration: 00:00:10.00, start'' @ [NL]))
   = Some ''00:00:10.00''"
  by (simp add: decode_ascii_ignore_def NL_def match_here_def duration_class_def is_digit_def)

lemma scan_readline:
  "readline (''Duration: 00:00:10.00, start'' @ [NL] @ ''boom'') =
     (''Duration: 00:00:10.00, start'' @ [NL], ''boom'')"
  by (simp add: readline_def NL_def)

lemma scan_left: "after_duration_line (p_stderr scan_proc) = Some ''boom''"
  unfolding scan_proc_def
  by (simp add: after_duration_line.simps [of "''Duration: 00:00:10.00, start'' @ [NL] @ ''boom''"]
        scan_readline scan_search del: append.simps)

lemma scan_input_duration:
  "input_duration 3 ((init [] True True)\<lparr>ffmpeg := Value (Some (scan_proc\<lparr>p_stdout := []\<rparr>))\<rparr>)
   = Return 10 ((init [] True True)\<lparr>ffmpeg := Value (Some (scan_proc\<lparr>p_stdout := [],
                     p_stderr := ''boom''\<rparr>)), input_duration_attr := Some 10\<rparr>) []"
  by (simp add: input_duration_def init_def scan_proc_def numeral_3_eq_3 scan_readline
        scan_search scan_duration del: append.simps)

lemma run_scan: "run 3 (init [] True True) scan_proc = Return () scan_final scan_events"
  by (simp add: run_def drain.simps drain_body_def scan_proc_def init_def readline_def
        NL_def strip_def is_space_def decode_ascii_ignore_def split_once_def
        process_info_def py_float_def is_digit_def digits_val_def emit_def
        input_duration_def numeral_3_eq_3 match_here_def duration_class_def
        duration_seconds_def indicate_progress_def scan_final_def scan_events_def Let_def)

text \<open>
  C3, as the code has it. After a completed run the error value is present exactly when
  the recorded exit status is a non-zero integer, and it carries that status. Its buffer
  is what was still unread of the diagnostic pipe when the progress pipe closed: the
  whole stream when \<open>run\<close> never looked the duration up, and otherwise only the bytes
  after the first line with the duration marker; the lines that the scan read are not
  in it. The string form of the error is that buffer, decoded.
\<close>

theorem terminal_error_unread_stderr:
  assumes "run fuel s proc = Return u s' evs"
  shows "\<exists>buf.
           stderr s' = Value buf
         \<and> (input_duration_attr s = None \<and> input_duration_attr s' \<noteq> None \<longrightarrow>
              after_duration_line (p_stderr proc) = Some buf)
         \<and> (input_duration_attr s \<noteq> None \<or> input_duration_attr s' = None \<longrightarrow>
              buf = p_stderr proc)
         \<and> exitcode s' = Value (p_poll proc)
         \<and> exception s' =
             Return (case p_poll proc of
                       None \<Rightarrow> None
                     | Some n \<Rightarrow> if n = 0 then None else Some (FFMPEGError n buf)) s' []
         \<and> (\<forall>n. err_exitcode (FFMPEGError n buf) = n
                \<and> str_FFMPEGError (FFMPEGError n buf) = decode_ascii_ignore buf)"
proof -
  from assms obtain buf where
    b1: "stderr s' = Value buf"
    and b2: "input_duration_attr s = None \<and> input_duration_attr s' \<noteq> None \<longrightarrow>
           after_duration_line (p_stderr proc) = Some buf"
    and b3: "input_duration_attr s \<noteq> None \<or> input_duration_attr s' = None \<longrightarrow>
           buf = p_stderr proc"
    by (rule run_stderr)
  from assms obtain consumed buf' where e: "exitcode s' = Value (p_poll proc)"
    by (rule run_ReturnE)
  show ?thesis
  proof (intro exI conjI)
    show "stderr s' = Value buf" by (rule b1)
    show "input_duration_attr s = None \<and> input_duration_attr s' \<noteq> None \<longrightarrow>
           after_duration_line (p_stderr proc) = Some buf" by (rule b2)
    show "input_duration_attr s \<noteq> None \<or> input_duration_attr s' = None \<longrightarrow>
           buf = p_stderr proc" by (rule b3)
    show "exitcode s' = Value (p_poll proc)" by (rule e)
    show "exception s' =
      Return (case p_poll proc of
                None \<Rightarrow> None
              | Some n \<Rightarrow> if n = 0 then None else Some (FFMPEGError n buf)) s' []"
      using e b1 by (rule exception_recorded)
    show "\<forall>n. err_exitcode (FFMPEGError n buf) = n
                \<and> str_FFMPEGError (FFMPEGError n buf) = decode_ascii_ignore buf"
      by (simp add: str_FFMPEGError_def)
  qed
qed

theorem terminal_error_without_scanned_lines:
  "run 3 (init [] True True) scan_proc = Return () scan_final scan_events
   \<and> exception scan_final = Return (Some (FFMPEGError 1 ''boom'')) scan_final []
   \<and> err_stderr (FFMPEGError 1 ''boom'') \<noteq> p_stderr scan_proc"
proof (intro conjI)
  show "run 3 (init [] True True) scan_proc = Return () scan_final scan_events"
    by (rule run_scan)
  show "exception scan_final = Return (Some (FFMPEGError 1 ''boom'')) scan_final []"
    by (simp add: exception_def scan_final_def init_def)
  show "err_stderr (FFMPEGError 1 ''boom'') \<noteq> p_stderr scan_proc"
    by (simp add: scan_proc_def)
qed

theorem terminal_error_unread_stderr_witness:
  "run 3 (init [] True True) fatal_proc = Return () fatal_final []
   \<and> input_duration_attr fatal_final = None
   \<and> stderr fatal_final = Value (p_stderr fatal_proc)
   \<and> exception fatal_final = Return (Some (FFMPEGError 1 ''fatal error'')) fatal_final []
   \<and> str_FFMPEGError (FFMPEGError 1 ''fatal error'') = ''fatal error''
   \<and> run 3 (init [] True True) scan_proc = Return () scan_final scan_events
   \<and> input_duration_attr (init [] True True) = None
   \<and> input_duration_attr scan_final = Some 10
   \<and> after_duration_line (p_stderr scan_proc) = Some ''boom''
   \<and> exception scan_final = Return (Some (FFMPEGError 1 ''boom'')) scan_final []
   \<and> str_FFMPEGError (FFMPEGError 1 ''boom'') = ''boom''"
proof -
  have n0: "input_duration_attr (init [] True True) = None" by (simp add: init_def)
  have n1: "input_duration_attr fatal_final = None" by (simp add: fatal_final_def init_def)
  have n2: "input_duration_attr scan_final = Some 10" by (simp add: scan_final_def)
  have p1: "p_poll fatal_proc = Some 1" by (simp add: fatal_proc_def)
  have p2: "p_poll scan_proc = Some 1" by (simp add: scan_proc_def)
  from terminal_error_unread_stderr [OF run_fatal] obtain buf where
    b: "stderr fatal_final = Value buf"
    and w: "input_duration_attr (init [] True True) \<noteq> None
              \<or> input_duration_attr fatal_final = None \<longrightarrow> buf = p_stderr fatal_proc"
    and e: "exception fatal_final =
       Return (case p_poll fatal_proc of
                 None \<Rightarrow> None
               | Some n \<Rightarrow> if n = 0 then None else Some (FFMPEGError n buf)) fatal_final []"
    and t: "\<forall>n. err_exitcode (FFMPEGError n buf) = n
                \<and> str_FFMPEGError (FFMPEGError n buf) = decode_ascii_ignore buf"
    by (elim exE conjE)
  from w n1 have "buf = p_stderr fatal_proc" by simp
  then have buf: "buf = ''fatal error''" by (simp add: fatal_proc_def)
  from b have a1: "stderr fatal_final = Value (p_stderr fatal_proc)"
    unfolding buf by (simp add: fatal_proc_def)
  from e have a2: "exception fatal_final =
      Return (Some (FFMPEGError 1 ''fatal error'')) fatal_final []"
    unfolding buf p1 by simp
  from t have "str_FFMPEGError (FFMPEGError 1 ''fatal error'') =
      decode_ascii_ignore ''fatal error''"
    unfolding buf by (rule allE) (erule conjunct2)
  then have a3: "str_FFMPEGError (FFMPEGError 1 ''fatal error'') = ''fatal error''"
    by (simp add: decode_ascii_ignore_def)
  from terminal_error_unread_stderr [OF run_scan] obtain buf2 where
    w2: "input_duration_attr (init [] True True) = None
              \<and> input_duration_attr scan_final \<noteq> None \<longrightarrow>
           after_duration_line (p_stderr scan_proc) = Some buf2"
    and b2: "stderr scan_final = Value buf2"
    and e2: "exception scan_final =
       Return (case p_poll scan_proc of
                 None \<Rightarrow> None
               | Some n \<Rightarrow> if n = 0 then None else Some (FFMPEGError n buf2)) scan_final []"
    and t2: "\<forall>n. err_exitcode (FFMPEGError n buf2) = n
                \<and> str_FFMPEGError (FFMPEGError n buf2) = decode_ascii_ignore buf2"
    by (elim exE conjE)
  from b2 have buf2: "buf2 = ''boom''" by (simp add: scan_final_def)
  from w2 n0 n2 have c1: "after_duration_line (p_stderr scan_proc) = Some ''boom''"
    unfolding buf2 by simp
  from e2 have c2: "exception scan_final =
      Return (Some (FFMPEGError 1 ''boom'')) scan_final []"
    unfolding buf2 p2 by simp
  from t2 have "str_FFMPEGError (FFMPEGError 1 ''boom'') = decode_ascii_ignore ''boom''"
    unfolding buf2 by (rule allE) (erule conjunct2)
  then have c3: "str_FFMPEGError (FFMPEGError 1 ''boom'') = ''boom''"
    by (simp add: decode_ascii_ignore_def)
  from run_fatal n1 a1 a2 a3 run_scan n0 n2 c1 c2 c3 show ?thesis by (intro conjI)
qed

subsection \<open>The lookup of \<open>out_time_ms\<close>\<close>

function every_block_has_out_time_ms :: "bool \<Rightarrow> string \<Rightarrow> bool" where
  \<comment> \<open>every block that the rest of the progress stream closes has an \<open>out_time_ms\<close>
      line; \<open>seen\<close> says whether the block now open already has one\<close>
  "every_block_has_out_time_ms seen out =
     (let r = readline out; line = strip (fst r)
      in if line = [] then True
         else (case split_once CHR ''='' (decode_ascii_ignore line) of
                 [key, value] \<Rightarrow>
                   if key = ''progress''
                   then (if seen then every_block_has_out_time_ms False (snd r) else False)
                   else every_block_has_out_time_ms (seen \<or> key = ''out_time_ms'') (snd r)
               | _ \<Rightarrow> True))"
  by pat_completeness auto
termination
  by (relation "measure (\<lambda>(seen, out). length out)")
     (auto intro: readline_strip_shorter)

declare every_block_has_out_time_ms.simps [simp del]

lemma py_float_errors: "py_float x = Inl e \<Longrightarrow> e = ValueError \<or> e = NotModelled"
  unfolding py_float_def Let_def by (simp split: if_splits)

lemma duration_seconds_errors:
  assumes "duration_seconds g = Inl e"
  shows "e = ValueError \<or> e = NotModelled"
proof -
  have "e \<noteq> ValueError \<Longrightarrow> \<exists>x. py_float x = Inl e"
    using assms unfolding duration_seconds_def
    by (auto split: list.splits sum.splits)
  then show ?thesis using py_float_errors by blast
qed

lemma input_duration_loop_errors:
  "input_duration_loop n s = Raise e s' evs \<Longrightarrow> e \<noteq> KeyError"
proof (induction n arbitrary: s)
  case 0
  then show ?case by simp
next
  case (Suc n)
  show ?case
  proof (cases "ffmpeg s")
    case Missing
    with Suc.prems show ?thesis by auto
  next
    case (Value h)
    show ?thesis
    proof (cases h)
      case None
      with Value Suc.prems show ?thesis by auto
    next
      case (Some p)
      let ?s1 = "s\<lparr>ffmpeg := Value (Some (p\<lparr>p_stderr := snd (readline (p_stderr p))\<rparr>))\<rparr>"
      show ?thesis
      proof (cases "duration_re_search (decode_ascii_ignore (fst (readline (p_stderr p))))")
        case None
        with Suc.prems Value Some have "input_duration_loop n ?s1 = Raise e s' evs"
          by (simp add: Let_def)
        then show ?thesis by (rule Suc.IH)
      next
        case (Some g)
        show ?thesis
        proof (cases "duration_seconds g")
          case (Inl err)
          with Suc.prems Value \<open>h = Some p\<close> Some have "e = err" by (simp add: Let_def)
          with duration_seconds_errors [OF Inl] show ?thesis by auto
        next
          case (Inr v)
          with Suc.prems Value \<open>h = Some p\<close> Some show ?thesis by (simp add: Let_def)
        qed
      qed
    qed
  qed
qed

lemma input_duration_errors:
  "input_duration n s = Raise e s' evs \<Longrightarrow> e \<noteq> KeyError"
  unfolding input_duration_def
  by (auto split: option.splits attribute.splits dest: input_duration_loop_errors)

lemma process_info_no_key:
  "map_of i ''out_time_ms'' = None \<Longrightarrow> process_info fuel s i = Raise KeyError s []"
  by (simp add: process_info_def)

lemma process_info_KeyError:
  assumes "process_info fuel s i = Raise KeyError s' evs"
  shows "map_of i ''out_time_ms'' = None"
proof (rule ccontr)
  assume "map_of i ''out_time_ms'' \<noteq> None"
  then obtain v where v: "map_of i ''out_time_ms'' = Some v" by auto
  show False
  proof (cases "case v of Str x \<Rightarrow> py_float x | Flt q \<Rightarrow> Inr q")
    case (Inl err)
    with assms v have k: "err = KeyError" by (simp add: process_info_def)
    from Inl have "\<exists>x. py_float x = Inl err" by (cases v) auto
    with py_float_errors k show False by blast
  next
    case (Inr t)
    show False
    proof (cases "0 < t")
      case False
      with assms v Inr show False by (simp add: process_info_def)
    next
      case True
      show False
      proof (cases "input_duration fuel s")
        case (Return d s1 es)
        with assms v Inr True show False
          by (simp add: process_info_def Let_def split: if_splits)
      next
        case (Raise err s1 es)
        with assms v Inr True have "err = KeyError" by (simp add: process_info_def Let_def)
        with input_duration_errors [OF Raise] show False by simp
      next
        case OutOfFuel
        with assms v Inr True show False by (simp add: process_info_def Let_def)
      qed
    qed
  qed
qed

lemma drain_body_terminator_without_key:
  assumes "ffmpeg s = Value (Some p)" and "strip (fst (readline (p_stdout p))) \<noteq> []"
    and "split_once CHR ''='' (decode_ascii_ignore (strip (fst (readline (p_stdout p)))))
           = [''progress'', v]"
    and "map_of i ''out_time_ms'' = None"
  shows "drain_body fuel s i =
    Break (Raise KeyError
      (s\<lparr>ffmpeg := Value (Some (p\<lparr>p_stdout := snd (readline (p_stdout p))\<rparr>))\<rparr>) [])"
proof -
  from assms(4) have "map_of (AList.update ''progress'' (Str v) i) ''out_time_ms'' = None"
    by (simp add: update_conv')
  then have "process_info fuel
      (s\<lparr>ffmpeg := Value (Some (p\<lparr>p_stdout := snd (readline (p_stdout p))\<rparr>))\<rparr>)
      (AList.update ''progress'' (Str v) i) =
    Raise KeyError
      (s\<lparr>ffmpeg := Value (Some (p\<lparr>p_stdout := snd (readline (p_stdout p))\<rparr>))\<rparr>) []"
    by (rule process_info_no_key)
  with assms(1-3) show ?thesis by (simp add: drain_body_def Let_def)
qed

lemma drain_body_cases:
  assumes "ffmpeg s = Value (Some p)"
  defines "r \<equiv> readline (p_stdout p)"
  defines "s1 \<equiv> s\<lparr>ffmpeg := Value (Some (p\<lparr>p_stdout := snd r\<rparr>))\<rparr>"
  obtains (blank) "strip (fst r) = []" "drain_body fuel s i = Break (Return () s1 [])"
  | (malformed) "strip (fst r) \<noteq> []" "drain_body fuel s i = Break (Raise ValueError s1 [])"
  | (field) k v where "strip (fst r) \<noteq> []"
      "split_once CHR ''='' (decode_ascii_ignore (strip (fst r))) = [k, v]" "k \<noteq> ''progress''"
      "drain_body fuel s i = Again s1 (AList.update k (Str v) i) []"
  | (terminator) v where "strip (fst r) \<noteq> []"
      "split_once CHR ''='' (decode_ascii_ignore (strip (fst r))) = [''progress'', v]"
      "drain_body fuel s i =
         (case process_info fuel s1 (AList.update ''progress'' (Str v) i) of
            Return i2 s2 evs \<Rightarrow> Again s2 [] evs
          | Raise e s2 evs \<Rightarrow> Break (Raise e s2 evs)
          | OutOfFuel \<Rightarrow> Break OutOfFuel)"
proof (cases "strip (fst r) = []")
  case True
  moreover from True assms(1) have "drain_body fuel s i = Break (Return () s1 [])"
    unfolding r_def s1_def by (rule_tac drain_body_blank) simp_all
  ultimately show ?thesis by (rule blank)
next
  case False
  from split_once_cases [of "CHR ''=''" "decode_ascii_ignore (strip (fst r))"]
  show ?thesis
  proof cases
    case one
    with False assms(1) have "drain_body fuel s i = Break (Raise ValueError s1 [])"
      unfolding r_def s1_def by (simp add: drain_body_def Let_def)
    with False show ?thesis by (rule malformed)
  next
    case (two k v)
    show ?thesis
    proof (cases "k = ''progress''")
      case True
      with two(1) have sp: "split_once CHR ''='' (decode_ascii_ignore (strip (fst r)))
          = [''progress'', v]" by simp
      with False assms(1) have "drain_body fuel s i =
         (case process_info fuel s1 (AList.update ''progress'' (Str v) i) of
            Return i2 s2 evs \<Rightarrow> Again s2 [] evs
          | Raise e s2 evs \<Rightarrow> Break (Raise e s2 evs)
          | OutOfFuel \<Rightarrow> Break OutOfFuel)"
        unfolding r_def s1_def by (simp add: drain_body_def Let_def)
      with False sp show ?thesis by (rule terminator)
    next
      case k: False
      with two(1) False assms(1)
      have "drain_body fuel s i = Again s1 (AList.update k (Str v) i) []"
        unfolding r_def s1_def by (simp add: drain_body_def Let_def)
      with False two(1) k show ?thesis by (rule field)
    qed
  qed
qed

lemma emit_Nil [simp]: "emit [] r = r"
  by (cases r) (simp_all add: emit_def)

lemma drain_no_handle:
  assumes "\<not> has_handle s"
  shows "drain fuel s i = Raise AttributeError s []"
proof -
  from assms have "drain_body fuel s i = Break (Raise AttributeError s [])"
    by (simp add: drain_body_def has_handle_def split: attribute.splits option.splits)
  then show ?thesis by (simp add: drain.simps [of fuel s i])
qed

lemma drain_no_KeyError:
  "every_block_has_out_time_ms (map_of i ''out_time_ms'' \<noteq> None) (stdout_of s) \<Longrightarrow>
   drain fuel s i \<noteq> Raise KeyError s' evs"
proof (induction fuel s i arbitrary: evs rule: drain.induct)
  case (1 fuel s i)
  show ?case
  proof (cases "has_handle s")
    case False
    then show ?thesis by (simp add: drain_no_handle)
  next
    case True
    then obtain p where p: "ffmpeg s = Value (Some p)" unfolding has_handle_iff by (rule exE)
    then have out: "stdout_of s = p_stdout p" by (simp add: stdout_of_def)
    let ?r = "readline (p_stdout p)"
    let ?s1 = "s\<lparr>ffmpeg := Value (Some (p\<lparr>p_stdout := snd ?r\<rparr>))\<rparr>"
    have out1: "stdout_of ?s1 = snd ?r" using p by (simp add: stdout_of_def)
    note every = "1.prems" [unfolded out]
    from p show ?thesis
    proof (cases rule: drain_body_cases [where fuel = fuel and i = i])
      case blank
      then show ?thesis by (simp add: drain.simps [of fuel s i])
    next
      case malformed
      then show ?thesis by (simp add: drain.simps [of fuel s i])
    next
      case (field k v)
      from every field(1,2,3)
      have "every_block_has_out_time_ms
          (map_of i ''out_time_ms'' \<noteq> None \<or> k = ''out_time_ms'') (snd ?r)"
        by (simp add: every_block_has_out_time_ms.simps [of _ "p_stdout p"] Let_def)
      moreover have "(map_of (AList.update k (Str v) i) ''out_time_ms'' \<noteq> None)
          = (map_of i ''out_time_ms'' \<noteq> None \<or> k = ''out_time_ms'')"
        by (auto simp: update_conv')
      ultimately have "every_block_has_out_time_ms
          (map_of (AList.update k (Str v) i) ''out_time_ms'' \<noteq> None) (stdout_of ?s1)"
        unfolding out1 by simp
      from "1.IH" [OF field(4) this]
      have "drain fuel ?s1 (AList.update k (Str v) i) \<noteq> Raise KeyError s' evs" .
      with field(4) show ?thesis by (simp add: drain.simps [of fuel s i])
    next
      case (terminator v)
      from every terminator(1,2)
      have seen: "map_of i ''out_time_ms'' \<noteq> None"
        and rest: "every_block_has_out_time_ms False (snd ?r)"
        by (simp_all add: every_block_has_out_time_ms.simps [of _ "p_stdout p"] Let_def
              split: if_splits)
      let ?i1 = "AList.update ''progress'' (Str v) i"
      from seen have k: "map_of ?i1 ''out_time_ms'' \<noteq> None" by (simp add: update_conv')
      show ?thesis
      proof (cases "process_info fuel ?s1 ?i1")
        case (Return i2 s2 es)
        with terminator(3) have a: "drain_body fuel s i = Again s2 [] es" by simp
        from process_info_frame [OF disjI1, OF Return] out1
        have "stdout_of s2 = snd ?r" by (simp add: frame_def)
        with rest have "every_block_has_out_time_ms (map_of [] ''out_time_ms'' \<noteq> None)
            (stdout_of s2)" by simp
        from "1.IH" [OF a this]
        have "\<And>es'. drain fuel s2 [] \<noteq> Raise KeyError s' es'" .
        with a show ?thesis
          by (auto simp: drain.simps [of fuel s i] emit_Raise)
      next
        case (Raise e s2 es)
        with terminator(3) have b: "drain_body fuel s i = Break (Raise e s2 es)" by simp
        have "e \<noteq> KeyError"
        proof
          assume "e = KeyError"
          with Raise have "map_of ?i1 ''out_time_ms'' = None"
            by (simp add: process_info_KeyError)
          with k show False by simp
        qed
        with b show ?thesis by (simp add: drain.simps [of fuel s i])
      next
        case OutOfFuel
        with terminator(3) show ?thesis by (simp add: drain.simps [of fuel s i])
      qed
    qed
  qed
qed

lemma drain_Return_blocks:
  "drain fuel s i = Return u s' evs \<Longrightarrow>
   every_block_has_out_time_ms (map_of i ''out_time_ms'' \<noteq> None) (stdout_of s)"
proof (induction fuel s i arbitrary: evs rule: drain.induct)
  case (1 fuel s i)
  show ?case
  proof (cases "has_handle s")
    case False
    with "1.prems" show ?thesis by (simp add: drain_no_handle)
  next
    case True
    then obtain p where p: "ffmpeg s = Value (Some p)" unfolding has_handle_iff by (rule exE)
    then have out: "stdout_of s = p_stdout p" by (simp add: stdout_of_def)
    let ?r = "readline (p_stdout p)"
    let ?s1 = "s\<lparr>ffmpeg := Value (Some (p\<lparr>p_stdout := snd ?r\<rparr>))\<rparr>"
    have out1: "stdout_of ?s1 = snd ?r" using p by (simp add: stdout_of_def)
    from p show ?thesis
    proof (cases rule: drain_body_cases [where fuel = fuel and i = i])
      case blank
      then show ?thesis
        unfolding out by (simp add: every_block_has_out_time_ms.simps [of _ "p_stdout p"])
    next
      case malformed
      with "1.prems" show ?thesis by (simp add: drain.simps [of fuel s i])
    next
      case (field k v)
      with "1.prems" have "drain fuel ?s1 (AList.update k (Str v) i) = Return u s' evs"
        by (simp add: drain.simps [of fuel s i])
      from "1.IH" [OF field(4) this]
      have "every_block_has_out_time_ms
          (map_of (AList.update k (Str v) i) ''out_time_ms'' \<noteq> None) (snd ?r)"
        unfolding out1 .
      moreover have "(map_of (AList.update k (Str v) i) ''out_time_ms'' \<noteq> None)
          = (map_of i ''out_time_ms'' \<noteq> None \<or> k = ''out_time_ms'')"
        by (auto simp: update_conv')
      ultimately have "every_block_has_out_time_ms
          (map_of i ''out_time_ms'' \<noteq> None \<or> k = ''out_time_ms'') (snd ?r)"
        by simp
      with field(1,2,3) show ?thesis
        unfolding out
        by (simp add: every_block_has_out_time_ms.simps [of _ "p_stdout p"] Let_def)
    next
      case (terminator v)
      let ?i1 = "AList.update ''progress'' (Str v) i"
      show ?thesis
      proof (cases "process_info fuel ?s1 ?i1")
        case (Return i2 s2 es)
        with terminator(3) have a: "drain_body fuel s i = Again s2 [] es" by simp
        with "1.prems" obtain es' where d: "drain fuel s2 [] = Return u s' es'"
          by (auto simp: drain.simps [of fuel s i] emit_Return)
        from process_info_frame [OF disjI1, OF Return] out1
        have o2: "stdout_of s2 = snd ?r" by (simp add: frame_def)
        from "1.IH" [OF a d] have rest: "every_block_has_out_time_ms False (snd ?r)"
          unfolding o2 by simp
        have "map_of ?i1 ''out_time_ms'' \<noteq> None"
        proof
          assume "map_of ?i1 ''out_time_ms'' = None"
          then have "process_info fuel ?s1 ?i1 = Raise KeyError ?s1 []"
            by (rule process_info_no_key)
          with Return show False by simp
        qed
        then have seen: "map_of i ''out_time_ms'' \<noteq> None" by (simp add: update_conv')
        from terminator(1,2) seen rest show ?thesis
          unfolding out
          by (simp add: every_block_has_out_time_ms.simps [of _ "p_stdout p"] Let_def)
      next
        case (Raise e s2 es)
        with terminator(3) "1.prems" show ?thesis by (simp add: drain.simps [of fuel s i])
      next
        case OutOfFuel
        with terminator(3) "1.prems" show ?thesis by (simp add: drain.simps [of fuel s i])
      qed
    qed
  qed
qed

text \<open>
  C10. \<open>process_info\<close> looks \<open>out_time_ms\<close> up without a guard. A dictionary without
  the key raises KeyError; when the terminator line of such a block arrives, the error
  leaves the drain loop, and \<open>run\<close> ends with it before it has recorded the exit status
  and the diagnostic buffer. A run that completes has found the key in every block that
  the progress stream closed, and when every block of the stream has the key, \<open>run\<close>
  never ends with KeyError.
\<close>

theorem out_time_ms_lookup:
  "(map_of i ''out_time_ms'' = None \<longrightarrow> process_info fuel s i = Raise KeyError s [])
   \<and> (ffmpeg s = Value (Some p) \<and> strip (fst (readline (p_stdout p))) \<noteq> []
        \<and> split_once CHR ''='' (decode_ascii_ignore (strip (fst (readline (p_stdout p)))))
              = [''progress'', v]
        \<and> map_of i ''out_time_ms'' = None \<longrightarrow>
        drain fuel s i =
          Raise KeyError
            (s\<lparr>ffmpeg := Value (Some (p\<lparr>p_stdout := snd (readline (p_stdout p))\<rparr>))\<rparr>) [])
   \<and> (run fuel s proc = Raise e s' evs \<longrightarrow>
        exitcode s' = exitcode s \<and> stderr s' = stderr s)
   \<and> (run fuel s proc = Return u s' evs \<longrightarrow>
        every_block_has_out_time_ms False (p_stdout proc))
   \<and> (every_block_has_out_time_ms False (p_stdout proc) \<longrightarrow>
        run fuel s proc \<noteq> Raise KeyError s' evs)"
proof (intro conjI impI)
  assume "map_of i ''out_time_ms'' = None"
  then show "process_info fuel s i = Raise KeyError s []" by (rule process_info_no_key)
next
  assume a: "ffmpeg s = Value (Some p) \<and> strip (fst (readline (p_stdout p))) \<noteq> []
        \<and> split_once CHR ''='' (decode_ascii_ignore (strip (fst (readline (p_stdout p)))))
              = [''progress'', v]
        \<and> map_of i ''out_time_ms'' = None"
  then have "drain_body fuel s i =
    Break (Raise KeyError
      (s\<lparr>ffmpeg := Value (Some (p\<lparr>p_stdout := snd (readline (p_stdout p))\<rparr>))\<rparr>) [])"
    by (intro drain_body_terminator_without_key) simp_all
  then show "drain fuel s i =
      Raise KeyError
        (s\<lparr>ffmpeg := Value (Some (p\<lparr>p_stdout := snd (readline (p_stdout p))\<rparr>))\<rparr>) []"
    by (simp add: drain.simps [of fuel s i])
next
  assume r: "run fuel s proc = Raise e s' evs"
  from run_Raise(1) [OF r] show "exitcode s' = exitcode s" .
  from run_Raise(2) [OF r] show "stderr s' = stderr s" .
next
  assume "run fuel s proc = Return u s' evs"
  then have "\<exists>s1. drain fuel (s\<lparr>ffmpeg := Value (Some proc)\<rparr>) [] = Return () s1 evs"
    by (cases "drain fuel (s\<lparr>ffmpeg := Value (Some proc)\<rparr>) []")
       (simp_all add: run_unfold)
  then obtain s1 where
    "drain fuel (s\<lparr>ffmpeg := Value (Some proc)\<rparr>) [] = Return () s1 evs"
    by (rule exE)
  from drain_Return_blocks [OF this]
  show "every_block_has_out_time_ms False (p_stdout proc)"
    by (simp add: stdout_of_def)
next
  assume "every_block_has_out_time_ms False (p_stdout proc)"
  then have "every_block_has_out_time_ms (map_of [] ''out_time_ms'' \<noteq> None)
      (stdout_of (s\<lparr>ffmpeg := Value (Some proc)\<rparr>))"
    by (simp add: stdout_of_def)
  then have "drain fuel (s\<lparr>ffmpeg := Value (Some proc)\<rparr>) [] \<noteq> Raise KeyError s' evs"
    by (rule drain_no_KeyError)
  then show "run fuel s proc \<noteq> Raise KeyError s' evs"
    by (cases "drain fuel (s\<lparr>ffmpeg := Value (Some proc)\<rparr>) []")
       (simp_all add: run_unfold)
qed

definition no_time_proc :: popen where
  \<comment> \<open>a block that is closed without an \<open>out_time_ms\<close> line\<close>
  "no_time_proc = \<lparr>p_stdout = ''progress=continue'' @ [NL], p_stderr = ''some text'',
                    p_poll = Some 0\<rparr>"

definition zero_time_proc :: popen where
  \<comment> \<open>one block, whose \<open>out_time_ms\<close> is 0\<close>
  "zero_time_proc = \<lparr>p_stdout = ''out_time_ms=0'' @ [NL] @ ''progress=continue'' @ [NL],
                      p_stderr = [], p_poll = Some 0\<rparr>"

lemma zero_time_blocks: "every_block_has_out_time_ms False (p_stdout zero_time_proc)"
  by (simp add: zero_time_proc_def every_block_has_out_time_ms.simps readline_def NL_def
        strip_def is_space_def decode_ascii_ignore_def split_once_def)

lemma run_zero_time:
  "run 3 (init [] True True) zero_time_proc =
     Return () ((init [] True True)\<lparr>ffmpeg := Value None, exitcode := Value (Some 0),
                                     stderr := Value []\<rparr>) []"
  by (simp add: run_def drain.simps drain_body_def zero_time_proc_def init_def readline_def
        NL_def strip_def is_space_def decode_ascii_ignore_def split_once_def
        process_info_def py_float_def is_digit_def digits_val_def emit_def)

lemma run_no_time:
  "run 3 (init [] True True) no_time_proc =
     Raise KeyError
       ((init [] True True)\<lparr>ffmpeg := Value (Some (no_time_proc\<lparr>p_stdout := []\<rparr>))\<rparr>) []"
  by (simp add: run_def drain.simps drain_body_def no_time_proc_def init_def readline_def
        NL_def strip_def is_space_def decode_ascii_ignore_def split_once_def
        process_info_def)

theorem out_time_ms_lookup_witness:
  "process_info 3 (init [] True True) [] = Raise KeyError (init [] True True) []
   \<and> drain 3 ((init [] True True)\<lparr>ffmpeg := Value (Some no_time_proc)\<rparr>) [] =
       Raise KeyError
         ((init [] True True)\<lparr>ffmpeg := Value (Some (no_time_proc\<lparr>p_stdout := []\<rparr>))\<rparr>) []
   \<and> run 3 (init [] True True) no_time_proc =
       Raise KeyError
         ((init [] True True)\<lparr>ffmpeg := Value (Some (no_time_proc\<lparr>p_stdout := []\<rparr>))\<rparr>) []
   \<and> exitcode ((init [] True True)\<lparr>ffmpeg := Value (Some (no_time_proc\<lparr>p_stdout := []\<rparr>))\<rparr>)
       = Missing
   \<and> stderr ((init [] True True)\<lparr>ffmpeg := Value (Some (no_time_proc\<lparr>p_stdout := []\<rparr>))\<rparr>)
       = Missing
   \<and> run 3 (init [] True True) zero_time_proc =
       Return () ((init [] True True)\<lparr>ffmpeg := Value None, exitcode := Value (Some 0),
                                       stderr := Value []\<rparr>) []
   \<and> every_block_has_out_time_ms False (p_stdout zero_time_proc)
   \<and> run 3 (init [] True True) zero_time_proc \<noteq>
       Raise KeyError
         ((init [] True True)\<lparr>ffmpeg := Value (Some (no_time_proc\<lparr>p_stdout := []\<rparr>))\<rparr>) []"
proof -
  let ?S0 = "(init [] True True)\<lparr>ffmpeg := Value (Some no_time_proc)\<rparr>"
  let ?S1 = "(init [] True True)\<lparr>ffmpeg := Value (Some (no_time_proc\<lparr>p_stdout := []\<rparr>))\<rparr>"
  note t1 = out_time_ms_lookup [where i = "[]" and fuel = 3 and s = "init [] True True"
      and proc = no_time_proc and e = KeyError and s' = ?S1 and evs = "[]"]
  note t2 = out_time_ms_lookup [where i = "[]" and fuel = 3 and s = ?S0
      and p = no_time_proc and v = "''continue''"]
  note t3 = out_time_ms_lookup [where fuel = 3 and s = "init [] True True"
      and proc = zero_time_proc and s' = ?S1 and evs = "[]"]
  from t1 have a: "process_info 3 (init [] True True) [] = Raise KeyError (init [] True True) []"
    by simp
  have r: "readline (p_stdout no_time_proc) = (''progress=continue'' @ [NL], [])"
    by (simp add: no_time_proc_def readline_def NL_def)
  from t2 have b: "drain 3 ?S0 [] = Raise KeyError ?S1 []"
    unfolding r
    by (simp add: strip_def is_space_def NL_def decode_ascii_ignore_def split_once_def)
  from t1 run_no_time have c: "exitcode ?S1 = Missing \<and> stderr ?S1 = Missing"
    by (simp add: init_def)
  note t4 = out_time_ms_lookup [where fuel = 3 and s = "init [] True True"
      and proc = zero_time_proc
      and s' = "(init [] True True)\<lparr>ffmpeg := Value None, exitcode := Value (Some 0),
                                       stderr := Value []\<rparr>" and evs = "[]"]
  from t4 run_zero_time have z: "every_block_has_out_time_ms False (p_stdout zero_time_proc)"
    by simp
  from t3 z have d: "run 3 (init [] True True) zero_time_proc \<noteq>
      Raise KeyError ?S1 []"
    by simp
  from a b run_no_time c run_zero_time z d show ?thesis by simp
qed

subsection \<open>The duration text in seconds\<close>

definition hms_seconds :: "string \<Rightarrow> string \<Rightarrow> string \<Rightarrow> string \<Rightarrow> rat" where
  \<comment> \<open>the seconds that the decimal fields \<open>h:m:sec.fp\<close> stand for\<close>
  "hms_seconds h m sec fp =
     of_nat (digits_val h) * 3600 + of_nat (digits_val m) * 60 + of_nat (digits_val sec)
     + of_nat (digits_val fp) / 10 ^ length fp"

definition duration_proc :: popen where
  \<comment> \<open>the diagnostic pipe starts with the line ffmpeg prints for its input\<close>
  "duration_proc =
     \<lparr>p_stdout = [],
      p_stderr = ''  Duration: 01:02:03.50, start: 0.000000, bitrate: 128 kb/s'' @ [NL],
      p_poll = None\<rparr>"

lemma dropWhile_none: "(\<And>x. x \<in> set xs \<Longrightarrow> \<not> P x) \<Longrightarrow> dropWhile P xs = xs"
  by (cases xs) simp_all

lemma strip_no_space:
  assumes "\<And>c. c \<in> set s \<Longrightarrow> \<not> is_space c"
  shows "strip s = s"
proof -
  have "dropWhile is_space s = s" using assms by (rule dropWhile_none)
  moreover have "dropWhile is_space (rev s) = rev s"
    using assms by (intro dropWhile_none) simp
  ultimately show ?thesis by (simp add: strip_def)
qed

lemma digit_no_space: "is_digit c \<Longrightarrow> \<not> is_space c"
  by (auto simp: is_digit_def is_space_def)

lemma digit_no_sign: "is_digit c \<Longrightarrow> c \<noteq> CHR ''-'' \<and> c \<noteq> CHR ''+''"
  by (auto simp: is_digit_def)

lemma digits_no_separator:
  assumes "list_all is_digit ds"
  shows "CHR ''.'' \<notin> set ds" and "CHR '':'' \<notin> set ds"
proof -
  have "\<not> is_digit CHR ''.''" and "\<not> is_digit CHR '':''" by (simp_all add: is_digit_def)
  with assms show "CHR ''.'' \<notin> set ds" and "CHR '':'' \<notin> set ds"
    unfolding list_all_iff by blast+
qed

lemma py_float_digits:
  assumes "list_all is_digit ds" and "ds \<noteq> []"
  shows "py_float ds = Inr (of_nat (digits_val ds))"
proof -
  from assms(1) have all: "\<And>c. c \<in> set ds \<Longrightarrow> is_digit c" by (simp add: list_all_iff)
  then have s: "strip ds = ds" by (intro strip_no_space digit_no_space)
  from assms(2) all have "is_digit (hd ds)" by simp
  then have h: "hd ds \<noteq> CHR ''-''" "hd ds \<noteq> CHR ''+''"
    using digit_no_sign by blast+
  have t: "takeWhile is_digit ds = ds" using all by (simp add: takeWhile_eq_all_conv)
  have d: "dropWhile is_digit ds = []" using all by simp
  have body: "(if ds \<noteq> [] \<and> (hd ds = CHR ''-'' \<or> hd ds = CHR ''+'') then tl ds else ds) = ds"
    using h by simp
  show ?thesis unfolding py_float_def s Let_def body t d using h assms(2) by simp
qed

lemma py_float_fraction:
  assumes "list_all is_digit fp"
  shows "py_float (''0.'' @ fp) = Inr (of_nat (digits_val fp) / 10 ^ length fp)"
proof -
  from assms have all: "\<And>c. c \<in> set fp \<Longrightarrow> is_digit c" by (simp add: list_all_iff)
  have z: "is_digit CHR ''0''" and p: "\<not> is_digit CHR ''.''" and ps: "\<not> is_space CHR ''.''"
    by (simp_all add: is_digit_def is_space_def)
  have "\<And>c. c \<in> set (''0.'' @ fp) \<Longrightarrow> \<not> is_space c"
    using all z ps digit_no_space by auto
  then have s: "strip (''0.'' @ fp) = ''0.'' @ fp" by (rule strip_no_space)
  have t: "takeWhile is_digit (''0.'' @ fp) = ''0''" using z p by simp
  have d: "dropWhile is_digit (''0.'' @ fp) = ''.'' @ fp" using z p by simp
  have v: "digits_val ''0'' = 0" by (simp add: digits_val_def)
  have body: "(if ''0.'' @ fp \<noteq> [] \<and> (hd (''0.'' @ fp) = CHR ''-'' \<or> hd (''0.'' @ fp) = CHR ''+'')
               then tl (''0.'' @ fp) else ''0.'' @ fp) = ''0.'' @ fp"
    by simp
  show ?thesis unfolding py_float_def s Let_def body t d v using assms by simp
qed

lemma split_on_none: "sep \<notin> set xs \<Longrightarrow> split_on sep xs = [xs]"
  by (induction xs) auto

lemma split_on_append: "sep \<notin> set a \<Longrightarrow> split_on sep (a @ sep # b) = a # split_on sep b"
  by (induction a) auto

lemma duration_seconds_digits:
  assumes h: "list_all is_digit h" "h \<noteq> []"
    and m: "list_all is_digit m" "m \<noteq> []"
    and sec: "list_all is_digit sec" "sec \<noteq> []"
    and fp: "list_all is_digit fp"
  shows "duration_seconds (h @ '':'' @ m @ '':'' @ sec @ ''.'' @ fp) =
    Inr (of_nat (digits_val h) * 3600 + of_nat (digits_val m) * 60 + of_nat (digits_val sec)
         + of_nat (digits_val fp) / 10 ^ length fp)"
proof -
  let ?time = "h @ CHR '':'' # m @ CHR '':'' # sec"
  note nd = digits_no_separator(1) [OF h(1)] digits_no_separator(1) [OF m(1)]
    digits_no_separator(1) [OF sec(1)] digits_no_separator(1) [OF fp]
  note nc = digits_no_separator(2) [OF h(1)] digits_no_separator(2) [OF m(1)]
    digits_no_separator(2) [OF sec(1)]
  from nd have "CHR ''.'' \<notin> set ?time" by simp
  then have "split_on CHR ''.'' (?time @ CHR ''.'' # fp) = ?time # split_on CHR ''.'' fp"
    by (rule split_on_append)
  with nd(4) have a: "split_on CHR ''.'' (?time @ CHR ''.'' # fp) = [?time, fp]"
    by (simp add: split_on_none)
  have "split_on CHR '':'' ?time = h # split_on CHR '':'' (m @ CHR '':'' # sec)"
    using nc(1) by (rule split_on_append)
  also have "split_on CHR '':'' (m @ CHR '':'' # sec) = m # split_on CHR '':'' sec"
    using nc(2) by (rule split_on_append)
  also have "split_on CHR '':'' sec = [sec]" using nc(3) by (rule split_on_none)
  finally have b: "split_on CHR '':'' ?time = [h, m, sec]" .
  have e: "h @ '':'' @ m @ '':'' @ sec @ ''.'' @ fp = ?time @ CHR ''.'' # fp" by simp
  show ?thesis
    unfolding duration_seconds_def e a
    by (simp add: b py_float_fraction [OF fp] py_float_digits [OF h] py_float_digits [OF m]
          py_float_digits [OF sec] del: append.simps)
qed

text \<open>
  C4. When the regular expression finds \<open>h:m:sec.fp\<close> in a line of the diagnostic
  pipe, with \<open>h\<close>, \<open>m\<close>, \<open>sec\<close> non-empty runs of digits and \<open>fp\<close> a run of digits,
  the text converts to \<open>h * 3600 + m * 60 + sec + 0.fp\<close> seconds, and the accessor
  returns and caches exactly that number. For \<open>01:02:03.50\<close> it is 3723.5.
\<close>

theorem input_duration_in_seconds:
  assumes "list_all is_digit h" and "h \<noteq> []" and "list_all is_digit m" and "m \<noteq> []"
    and "list_all is_digit sec" and "sec \<noteq> []" and "list_all is_digit fp"
    and "input_duration_attr s = None" and "ffmpeg s = Value (Some p)"
    and "duration_re_search (decode_ascii_ignore (fst (readline (p_stderr p)))) =
           Some (h @ '':'' @ m @ '':'' @ sec @ ''.'' @ fp)"
  shows "duration_seconds (h @ '':'' @ m @ '':'' @ sec @ ''.'' @ fp) =
           Inr (hms_seconds h m sec fp)
       \<and> input_duration (Suc n) s =
           Return (hms_seconds h m sec fp)
             (s\<lparr>ffmpeg := Value (Some (p\<lparr>p_stderr := snd (readline (p_stderr p))\<rparr>)),
                input_duration_attr := Some (hms_seconds h m sec fp)\<rparr>) []"
proof -
  have d: "duration_seconds (h @ '':'' @ m @ '':'' @ sec @ ''.'' @ fp) =
      Inr (hms_seconds h m sec fp)"
    unfolding hms_seconds_def using assms(1-7) by (rule duration_seconds_digits)
  have "input_duration (Suc n) s =
      Return (hms_seconds h m sec fp)
        (s\<lparr>ffmpeg := Value (Some (p\<lparr>p_stderr := snd (readline (p_stderr p))\<rparr>)),
           input_duration_attr := Some (hms_seconds h m sec fp)\<rparr>) []"
    using assms(8-10) d by (simp add: input_duration_def Let_def del: append.simps)
  with d show ?thesis by (rule conjI)
qed

lemma duration_proc_search:
  "duration_re_search (decode_ascii_ignore (fst (readline (p_stderr duration_proc)))) =
     Some (''01'' @ '':'' @ ''02'' @ '':'' @ ''03'' @ ''.'' @ ''50'')"
  by (simp add: duration_proc_def readline_def decode_ascii_ignore_def NL_def match_here_def
        duration_class_def is_digit_def)

theorem input_duration_in_seconds_witness:
  "duration_seconds ''01:02:03.50'' = Inr (7447 / 2)
   \<and> input_duration 1 ((init [] True True)\<lparr>ffmpeg := Value (Some duration_proc)\<rparr>) =
       Return (7447 / 2)
         ((init [] True True)\<lparr>ffmpeg := Value (Some (duration_proc\<lparr>p_stderr := []\<rparr>)),
                                input_duration_attr := Some (7447 / 2)\<rparr>) []"
proof -
  let ?s = "(init [] True True)\<lparr>ffmpeg := Value (Some duration_proc)\<rparr>"
  have dg: "list_all is_digit ''01''" "list_all is_digit ''02''" "list_all is_digit ''03''"
    "list_all is_digit ''50''"
    by (simp_all add: is_digit_def)
  have ne: "''01'' \<noteq> []" "''02'' \<noteq> []" "''03'' \<noteq> []" by simp_all
  have a: "input_duration_attr ?s = None" by (simp add: init_def)
  have f: "ffmpeg ?s = Value (Some duration_proc)" by simp
  have v: "hms_seconds ''01'' ''02'' ''03'' ''50'' = 7447 / 2"
    by (simp add: hms_seconds_def digits_val_def)
  have r: "snd (readline (p_stderr duration_proc)) = []"
    by (simp add: duration_proc_def readline_def NL_def)
  from input_duration_in_seconds
    [OF dg(1) ne(1) dg(2) ne(2) dg(3) ne(3) dg(4) a f duration_proc_search, of 0]
  show ?thesis unfolding v r by simp
qed

subsection \<open>The callbacks of a completed block\<close>


fun info_events :: "event list \<Rightarrow> info list" where
  \<comment> \<open>the arguments of the calls of \<open>info_f\<close> in a trace, in order\<close>
  "info_events [] = []"
| "info_events (Progress r # evs) = info_events evs"
| "info_events (Info i # evs) = i # info_events evs"

definition block_proc :: popen where
  \<comment> \<open>the terminator line of a block is next; the diagnostic pipe has the duration\<close>
  "block_proc = scan_proc\<lparr>p_stdout := ''progress=continue'' @ [NL]\<rparr>"

definition block_thread :: ffmpegThread where
  "block_thread = (init [] True True)\<lparr>ffmpeg := Value (Some block_proc)\<rparr>"

definition block_read :: ffmpegThread where
  \<comment> \<open>\<open>block_thread\<close> after the terminator line was read\<close>
  "block_read = (init [] True True)\<lparr>ffmpeg := Value (Some (block_proc\<lparr>p_stdout := []\<rparr>))\<rparr>"

definition block_done :: ffmpegThread where
  \<comment> \<open>\<open>block_read\<close> after the duration was looked up\<close>
  "block_done =
     (init [] True True)\<lparr>ffmpeg := Value (Some (block_proc\<lparr>p_stdout := [],
                                                               p_stderr := ''boom''\<rparr>)),
                            input_duration_attr := Some 10\<rparr>"

lemma process_info_not_positive:
  assumes "map_of i ''out_time_ms'' = Some (Str x)" and "py_float x = Inr t" and "t \<le> 0"
  shows "process_info fuel s i = Return i s []"
  using assms by (simp add: process_info_def)

lemma process_info_positive:
  assumes "map_of i ''out_time_ms'' = Some (Str x)" and "py_float x = Inr t" and "0 < t"
    and "input_duration fuel s = Return d s1 es" and "d \<noteq> 0"
  shows "process_info fuel s i =
    Return (AList.update ''done'' (Flt (t / 1000000 / d)) i) s1
      (indicate_progress s (t / 1000000 / d) (AList.update ''done'' (Flt (t / 1000000 / d)) i))"
proof -
  from input_duration_frame [OF disjI1, OF assms(4)] have f: "frame s s1" and e: "es = []"
    by simp_all
  from f have "progress_f s1 = progress_f s" and "info_f s1 = info_f s"
    by (simp_all add: frame_def kept_def)
  then have "indicate_progress s1 = indicate_progress s"
    by (simp add: indicate_progress_def fun_eq_iff)
  with assms e show ?thesis by (simp add: process_info_def Let_def)
qed

lemma drain_body_terminator:
  assumes "ffmpeg s = Value (Some p)" and "strip (fst (readline (p_stdout p))) \<noteq> []"
    and "split_once CHR ''='' (decode_ascii_ignore (strip (fst (readline (p_stdout p)))))
           = [''progress'', v]"
  shows "drain_body fuel s i =
    (case process_info fuel
            (s\<lparr>ffmpeg := Value (Some (p\<lparr>p_stdout := snd (readline (p_stdout p))\<rparr>))\<rparr>)
            (AList.update ''progress'' (Str v) i) of
       Return i2 s2 evs \<Rightarrow> Again s2 [] evs
     | Raise e s2 evs \<Rightarrow> Break (Raise e s2 evs)
     | OutOfFuel \<Rightarrow> Break OutOfFuel)"
  using assms by (simp add: drain_body_def Let_def)

lemma out_time_ms_after_progress:
  "map_of (AList.update ''progress'' (Str v) i) ''out_time_ms'' = map_of i ''out_time_ms''"
  by (simp add: update_conv')

lemma block_not_positive:
  assumes "ffmpeg s = Value (Some p)" and "strip (fst (readline (p_stdout p))) \<noteq> []"
    and "split_once CHR ''='' (decode_ascii_ignore (strip (fst (readline (p_stdout p)))))
           = [''progress'', v]"
    and "map_of i ''out_time_ms'' = Some (Str x)" and "py_float x = Inr t" and "t \<le> 0"
  shows "drain_body fuel s i =
    Again (s\<lparr>ffmpeg := Value (Some (p\<lparr>p_stdout := snd (readline (p_stdout p))\<rparr>))\<rparr>) [] []"
proof -
  have "map_of (AList.update ''progress'' (Str v) i) ''out_time_ms'' = Some (Str x)"
    unfolding out_time_ms_after_progress by (rule assms(4))
  from process_info_not_positive [OF this assms(5,6)]
  show ?thesis unfolding drain_body_terminator [OF assms(1-3)] by simp
qed

lemma block_positive:
  assumes "ffmpeg s = Value (Some p)" and "strip (fst (readline (p_stdout p))) \<noteq> []"
    and "split_once CHR ''='' (decode_ascii_ignore (strip (fst (readline (p_stdout p)))))
           = [''progress'', v]"
    and "map_of i ''out_time_ms'' = Some (Str x)" and "py_float x = Inr t" and "0 < t"
    and "input_duration fuel
           (s\<lparr>ffmpeg := Value (Some (p\<lparr>p_stdout := snd (readline (p_stdout p))\<rparr>))\<rparr>)
         = Return d s2 es"
    and "d \<noteq> 0"
  shows "drain_body fuel s i =
    Again s2 []
      ((if progress_f s then [Progress (t / 1000000 / d)] else []) @
       (if info_f s
        then [Info (AList.update ''done'' (Flt (t / 1000000 / d))
                      (AList.update ''progress'' (Str v) i))]
        else []))"
proof -
  have "map_of (AList.update ''progress'' (Str v) i) ''out_time_ms'' = Some (Str x)"
    unfolding out_time_ms_after_progress by (rule assms(4))
  from process_info_positive [OF this assms(5,6,7,8)]
  show ?thesis
    unfolding drain_body_terminator [OF assms(1-3)]
    by (simp add: indicate_progress_def)
qed


lemma block_handle: "ffmpeg block_thread = Value (Some block_proc)"
  by (simp add: block_thread_def)

lemma block_readline: "readline (p_stdout block_proc) = (''progress=continue'' @ [NL], [])"
  by (simp add: block_proc_def readline_def NL_def)

lemma block_line:
  "strip (fst (readline (p_stdout block_proc))) \<noteq> []"
  "split_once CHR ''='' (decode_ascii_ignore (strip (fst (readline (p_stdout block_proc)))))
     = [''progress'', ''continue'']"
  unfolding block_readline
  by (simp_all add: strip_def is_space_def NL_def decode_ascii_ignore_def split_once_def)

lemma block_read_eq:
  "block_thread\<lparr>ffmpeg := Value (Some (block_proc\<lparr>p_stdout :=
      snd (readline (p_stdout block_proc))\<rparr>))\<rparr> = block_read"
  unfolding block_readline by (simp add: block_thread_def block_read_def)

lemma block_input_duration: "input_duration 3 block_read = Return 10 block_done []"
  using scan_input_duration by (simp add: block_read_def block_done_def block_proc_def)

lemma block_floats:
  "py_float ''-5'' = Inr (- 5)" "py_float ''0'' = Inr 0"
  "py_float ''500000'' = Inr 500000" "py_float ''30000000'' = Inr 30000000"
  by (simp_all add: py_float_def strip_def is_space_def is_digit_def digits_val_def)


text \<open>
  C2, as the code has it. \<open>info_f\<close> is called from inside the test \<open>out_time_ms > 0\<close>.
  When the terminator line of a block arrives and the block's \<open>out_time_ms\<close> reads as
  \<open>t\<close>: for \<open>t \<le> 0\<close> the pass calls nothing; for \<open>t > 0\<close>, with the duration resolved
  to \<open>d \<noteq> 0\<close>, a registered \<open>info_f\<close> is called exactly once, with the dictionary of
  the block (the \<open>progress\<close> entry included) and the ratio under \<open>done\<close>.
\<close>

theorem info_callback_per_block:
  assumes "ffmpeg s = Value (Some p)" and "strip (fst (readline (p_stdout p))) \<noteq> []"
    and "split_once CHR ''='' (decode_ascii_ignore (strip (fst (readline (p_stdout p)))))
           = [''progress'', v]"
    and "map_of i ''out_time_ms'' = Some (Str x)" and "py_float x = Inr t"
  shows "(t \<le> 0 \<longrightarrow>
            (\<exists>s1 evs. drain_body fuel s i = Again s1 [] evs \<and> info_events evs = []))
       \<and> (0 < t
          \<and> input_duration fuel
               (s\<lparr>ffmpeg := Value (Some (p\<lparr>p_stdout := snd (readline (p_stdout p))\<rparr>))\<rparr>)
             = Return d s2 es
          \<and> d \<noteq> 0 \<longrightarrow>
            (\<exists>evs. drain_body fuel s i = Again s2 [] evs
               \<and> info_events evs =
                   (if info_f s
                    then [AList.update ''done'' (Flt (t / 1000000 / d))
                            (AList.update ''progress'' (Str v) i)]
                    else [])))"
proof (intro conjI impI)
  assume "t \<le> 0"
  with assms have "drain_body fuel s i =
      Again (s\<lparr>ffmpeg := Value (Some (p\<lparr>p_stdout := snd (readline (p_stdout p))\<rparr>))\<rparr>) [] []"
    by (rule block_not_positive)
  moreover have "info_events [] = []" by simp
  ultimately show "\<exists>s1 evs. drain_body fuel s i = Again s1 [] evs \<and> info_events evs = []"
    by (intro exI conjI)
next
  assume a: "0 < t
      \<and> input_duration fuel
           (s\<lparr>ffmpeg := Value (Some (p\<lparr>p_stdout := snd (readline (p_stdout p))\<rparr>))\<rparr>)
         = Return d s2 es
      \<and> d \<noteq> 0"
  then have t: "0 < t" and d: "d \<noteq> 0"
    and r: "input_duration fuel
           (s\<lparr>ffmpeg := Value (Some (p\<lparr>p_stdout := snd (readline (p_stdout p))\<rparr>))\<rparr>)
         = Return d s2 es"
    by simp_all
  note b = block_positive [OF assms t r d]
  show "\<exists>evs. drain_body fuel s i = Again s2 [] evs
      \<and> info_events evs =
          (if info_f s
           then [AList.update ''done'' (Flt (t / 1000000 / d))
                   (AList.update ''progress'' (Str v) i)]
           else [])"
  proof (intro exI conjI)
    show "drain_body fuel s i = Again s2 []
      ((if progress_f s then [Progress (t / 1000000 / d)] else []) @
       (if info_f s
        then [Info (AList.update ''done'' (Flt (t / 1000000 / d))
                      (AList.update ''progress'' (Str v) i))]
        else []))"
      by (rule b)
    show "info_events
      ((if progress_f s then [Progress (t / 1000000 / d)] else []) @
       (if info_f s
        then [Info (AList.update ''done'' (Flt (t / 1000000 / d))
                      (AList.update ''progress'' (Str v) i))]
        else [])) =
      (if info_f s
       then [AList.update ''done'' (Flt (t / 1000000 / d))
               (AList.update ''progress'' (Str v) i)]
       else [])"
      by simp
  qed
qed

theorem info_callback_skipped_at_zero:
  "info_f (init [] True True)
   \<and> run 3 (init [] True True) zero_time_proc =
       Return () ((init [] True True)\<lparr>ffmpeg := Value None, exitcode := Value (Some 0),
                                       stderr := Value []\<rparr>) []"
proof (rule conjI)
  show "info_f (init [] True True)" by (simp add: init_def)
  show "run 3 (init [] True True) zero_time_proc =
       Return () ((init [] True True)\<lparr>ffmpeg := Value None, exitcode := Value (Some 0),
                                       stderr := Value []\<rparr>) []"
    by (rule run_zero_time)
qed

theorem info_callback_per_block_witness:
  "(\<exists>s1 evs. drain_body 3 block_thread [(''out_time_ms'', Str ''0'')] = Again s1 [] evs
        \<and> info_events evs = [])
   \<and> input_duration 3 block_read = Return 10 block_done []
   \<and> (\<exists>evs. drain_body 3 block_thread [(''out_time_ms'', Str ''500000'')] =
               Again block_done [] evs
          \<and> info_events evs =
              [[(''out_time_ms'', Str ''500000''), (''progress'', Str ''continue''),
                (''done'', Flt (1 / 20))]])"
proof -
  have k1: "map_of [(''out_time_ms'', Str ''0'')] ''out_time_ms'' = Some (Str ''0'')"
    and k2: "map_of [(''out_time_ms'', Str ''500000'')] ''out_time_ms''
               = Some (Str ''500000'')"
    by simp_all
  have inf: "info_f block_thread" by (simp add: block_thread_def init_def)
  note t1 = info_callback_per_block
    [OF block_handle block_line(1) block_line(2) k1 block_floats(2),
     where fuel = 3, unfolded block_read_eq]
  note t2 = info_callback_per_block
    [OF block_handle block_line(1) block_line(2) k2 block_floats(3),
     where fuel = 3 and d = 10 and ?s2.0 = block_done and es = "[]", unfolded block_read_eq]
  from t1 have a: "\<exists>s1 evs. drain_body 3 block_thread [(''out_time_ms'', Str ''0'')]
      = Again s1 [] evs \<and> info_events evs = []"
    by simp
  from t2 block_input_duration inf
  have b: "\<exists>evs. drain_body 3 block_thread [(''out_time_ms'', Str ''500000'')] =
               Again block_done [] evs
          \<and> info_events evs =
              [[(''out_time_ms'', Str ''500000''), (''progress'', Str ''continue''),
                (''done'', Flt (1 / 20))]]"
    by simp
  from a block_input_duration b show ?thesis by (intro conjI)
qed

end
